theory Spec2Isabelle
  imports Complex_Main "HOL-Library.Option_ord"
begin

chapter \<open>The program\<close>

section \<open>Data model\<close>

text \<open>
  Documents of the six collections, as the Mongoose schemas declare them (fields that no
  modelled operation reads or writes, such as e-mail, password or the framework's
  timestamps, are left out). An ObjectId is a natural number; a JavaScript \<open>Date\<close> is its
  number of milliseconds since the epoch; a \<open>YYYY-MM-DD\<close> string (the UTC calendar day that
  \<open>toISOString().split('T')[0]\<close> yields) is the number of that day since the epoch.
\<close>

type_synonym object_id = nat
type_synonym instant = int
type_synonym day = int

record Topic =
  topic_id :: object_id
  topic_name :: string
  topic_isActive :: bool
  topic_sortOrder :: int

record Question =
  question_id :: object_id
  question_topicId :: object_id
  question_text :: string
  question_difficulty :: string
  question_isActive :: bool
  lastUsedDate :: "instant option"
  usageCount :: int

record AiAnswer =
  answer_id :: object_id
  answer_questionId :: object_id
  answer_text :: string
  generatedAt :: instant
  answer_model :: string
  tokenCount :: "nat option"
  isStale :: bool

record DailySelection =
  selection_id :: object_id
  selection_date :: day
  selection_topicId :: object_id
  selection_questionId :: object_id
  aiAnswerId :: "object_id option"
  notificationsSent :: nat

record Streak =
  streak_count :: int
  streak_lastActiveDate :: "instant option"

record User =
  user_id :: object_id
  user_isActive :: bool
  subscribedTopics :: "object_id list"
  fcmToken :: "string option"
  streak :: "Streak option"

datatype NotificationStatus = PENDING | SENT | FAILED | DELIVERED

record NotificationLog =
  log_userId :: object_id
  log_dailySelectionId :: object_id
  log_status :: NotificationStatus
  log_error :: "string option"
  log_sentAt :: "instant option"

text \<open>
  The state every operation runs on: the collections, the ObjectId generator, and the
  traffic with the two external gateways (how many calls were made so far, and the
  back-off sleeps of the answer generator, in milliseconds).
\<close>

record World =
  topics :: "Topic list"
  questions :: "Question list"
  answers :: "AiAnswer list"
  selections :: "DailySelection list"
  users :: "User list"
  logs :: "NotificationLog list"
  nextId :: object_id
  sendCalls :: nat
  multicastCalls :: nat
  apiCalls :: nat
  sleeps :: "nat list"

section \<open>Notification dispatcher (notifications.service.ts)\<close>

definition INVALID_TOKEN_CODES :: "string list" where
  "INVALID_TOKEN_CODES =
     [''messaging/invalid-registration-token'',
      ''messaging/registration-token-not-registered'']"

record NotificationPayload =
  payload_title :: string
  payload_body :: string
  payload_data :: "(string \<times> object_id) list option"

record BatchUserEntry =
  entry_userId :: object_id
  entry_fcmToken :: string

record BatchSendResult =
  sent :: nat
  failed :: nat

text \<open>
  The messaging gateway (firebase-admin) is external. A thrown error carries an optional
  \<open>code\<close> and an optional \<open>message\<close>; a multicast call either throws or returns a
  \<open>BatchResponse\<close>. The gateway is a function of the number of the call and of the
  message, so that every behaviour of a real gateway during a run is one such function.
\<close>

record FcmError =
  fcm_code :: "string option"
  fcm_message :: "string option"

record SendResponse =
  success :: bool
  response_error :: "FcmError option"

record BatchResponse =
  responses :: "SendResponse list"
  successCount :: nat
  failureCount :: nat

record MulticastMessage =
  message_tokens :: "string list"
  message_title :: string
  message_body :: string
  message_data :: "(string \<times> object_id) list option"

datatype MulticastOutcome = MulticastThrows "string option" | MulticastReturns BatchResponse

record Messaging =
  send :: "nat \<Rightarrow> string \<Rightarrow> NotificationPayload \<Rightarrow> FcmError + string"
  sendEachForMulticast :: "nat \<Rightarrow> MulticastMessage \<Rightarrow> MulticastOutcome"

definition errorString :: "string \<Rightarrow> string \<Rightarrow> string" where
  "errorString errorCode errorMessage = errorCode @ '': '' @ errorMessage"

definition orElse :: "'a option \<Rightarrow> 'a \<Rightarrow> 'a" where
  "orElse x d = (case x of None \<Rightarrow> d | Some v \<Rightarrow> v)"

text \<open>
  The store's single-document and multi-document updates: \<open>updateOne\<close> changes the first
  document the filter matches, \<open>updateMany\<close> every one; \<open>List.find\<close> is \<open>findOne\<close>.
\<close>

fun updateOne :: "('a \<Rightarrow> bool) \<Rightarrow> ('a \<Rightarrow> 'a) \<Rightarrow> 'a list \<Rightarrow> 'a list" where
  "updateOne p f [] = []"
| "updateOne p f (x # xs) = (if p x then f x # xs else x # updateOne p f xs)"

definition updateMany :: "('a \<Rightarrow> bool) \<Rightarrow> ('a \<Rightarrow> 'a) \<Rightarrow> 'a list \<Rightarrow> 'a list" where
  "updateMany p f xs = map (\<lambda>x. if p x then f x else x) xs"

definition markTokenInvalid :: "object_id \<Rightarrow> World \<Rightarrow> World" where
  "markTokenInvalid userId w =
     w\<lparr>users := updateOne (\<lambda>u. user_id u = userId)
                     (\<lambda>u. u\<lparr>fcmToken := Some ''__invalid__''\<rparr>) (users w)\<rparr>"

definition bulkMarkTokensInvalid :: "object_id list \<Rightarrow> World \<Rightarrow> World" where
  "bulkMarkTokensInvalid userIds w =
     w\<lparr>users := updateMany (\<lambda>u. user_id u \<in> set userIds)
                     (\<lambda>u. u\<lparr>fcmToken := Some ''__invalid__''\<rparr>) (users w)\<rparr>"

definition cleanupInvalidTokens :: "World \<Rightarrow> nat \<times> World" where
  "cleanupInvalidTokens w =
     (length (filter (\<lambda>u. fcmToken u = Some ''__invalid__'') (users w)),
      w\<lparr>users := updateMany (\<lambda>u. fcmToken u = Some ''__invalid__'')
                      (\<lambda>u. u\<lparr>fcmToken := None\<rparr>) (users w)\<rparr>)"

subsection \<open>sendToUser\<close>

text \<open>
  The log entry is built in memory with status \<open>pending\<close>, set to \<open>sent\<close> or \<open>failed\<close>
  after the gateway call, and saved once. Without a selection id a fresh ObjectId is used.
\<close>

definition sendToUser ::
  "Messaging \<Rightarrow> instant \<Rightarrow> object_id \<Rightarrow> string \<Rightarrow> NotificationPayload \<Rightarrow> object_id option
     \<Rightarrow> World \<Rightarrow> NotificationLog \<times> World" where
  "sendToUser fcm now userId token payload dailySelectionId w0 =
     (let w = (case dailySelectionId of None \<Rightarrow> w0\<lparr>nextId := Suc (nextId w0)\<rparr> | Some _ \<Rightarrow> w0);
          logEntry = \<lparr>log_userId = userId,
                      log_dailySelectionId = orElse dailySelectionId (nextId w0),
                      log_status = PENDING, log_error = None, log_sentAt = None\<rparr>;
          w1 = w\<lparr>sendCalls := Suc (sendCalls w)\<rparr>
      in case send fcm (sendCalls w) token payload of
           Inr messageId \<Rightarrow>
             (let saved = logEntry\<lparr>log_status := SENT, log_sentAt := Some now\<rparr>
              in (saved, w1\<lparr>logs := logs w1 @ [saved]\<rparr>))
         | Inl err \<Rightarrow>
             (let errorCode = orElse (fcm_code err) ''unknown'';
                  errorMessage = orElse (fcm_message err) ''Unknown error'';
                  saved = logEntry\<lparr>log_status := FAILED,
                                     log_error := Some (errorString errorCode errorMessage),
                                     log_sentAt := Some now\<rparr>;
                  w2 = w1\<lparr>logs := logs w1 @ [saved]\<rparr>
              in (saved, if errorCode \<in> set INVALID_TOKEN_CODES
                         then markTokenInvalid userId w2 else w2)))"

subsection \<open>sendToMultipleUsers\<close>

text \<open>
  \<open>Math.ceil(users.length / fcmBatchLimit)\<close>. With a limit of 0 the quotient is
  \<open>Infinity\<close> for a non-empty list (the loop never ends: \<open>None\<close>) and \<open>NaN\<close> for an empty
  one (the loop condition is false at once).
\<close>

definition totalBatches :: "nat \<Rightarrow> nat \<Rightarrow> nat option" where
  "totalBatches n L =
     (if L = 0 then (if n = 0 then Some 0 else None)
      else Some (nat \<lceil>real n / real L\<rceil>))"

definition slice :: "'a list \<Rightarrow> nat \<Rightarrow> nat \<Rightarrow> 'a list" where
  "slice xs start end = take (end - start) (drop start xs)"

definition responseErrorCode :: "SendResponse \<Rightarrow> string" where
  "responseErrorCode response =
     (case response_error response of None \<Rightarrow> ''unknown''
      | Some e \<Rightarrow> orElse (fcm_code e) ''unknown'')"

definition responseErrorMessage :: "SendResponse \<Rightarrow> string" where
  "responseErrorMessage response =
     (case response_error response of None \<Rightarrow> ''Unknown error''
      | Some e \<Rightarrow> orElse (fcm_message e) ''Unknown error'')"

definition logEntryOf :: "instant \<Rightarrow> object_id \<Rightarrow> SendResponse \<times> BatchUserEntry \<Rightarrow> NotificationLog" where
  "logEntryOf now dailySelectionId ru =
     (case ru of (response, user) \<Rightarrow>
        if success response
        then \<lparr>log_userId = entry_userId user, log_dailySelectionId = dailySelectionId,
              log_status = SENT, log_error = None, log_sentAt = Some now\<rparr>
        else \<lparr>log_userId = entry_userId user, log_dailySelectionId = dailySelectionId,
              log_status = FAILED,
              log_error = Some (errorString (responseErrorCode response)
                                            (responseErrorMessage response)),
              log_sentAt = Some now\<rparr>)"

definition invalidUserIdsOf :: "(SendResponse \<times> BatchUserEntry) list \<Rightarrow> object_id list" where
  "invalidUserIdsOf rus =
     map (\<lambda>ru. entry_userId (snd ru))
       (filter (\<lambda>ru. \<not> success (fst ru) \<and> responseErrorCode (fst ru) \<in> set INVALID_TOKEN_CODES) rus)"

definition failedEntryOf :: "instant \<Rightarrow> object_id \<Rightarrow> string \<Rightarrow> BatchUserEntry \<Rightarrow> NotificationLog" where
  "failedEntryOf now dailySelectionId errorMessage user =
     \<lparr>log_userId = entry_userId user, log_dailySelectionId = dailySelectionId,
      log_status = FAILED, log_error = Some (errorString ''batch_error'' errorMessage),
      log_sentAt = Some now\<rparr>"

text \<open>
  The \<open>catch\<close> block of one batch: every user of the batch is logged as failed.
\<close>

definition batchFailed ::
  "instant \<Rightarrow> object_id \<Rightarrow> BatchUserEntry list \<Rightarrow> string option
     \<Rightarrow> World \<times> BatchSendResult \<Rightarrow> World \<times> BatchSendResult" where
  "batchFailed now dailySelectionId batchUsers thrownMessage acc =
     (case acc of (w, totals) \<Rightarrow>
        (let errorMessage = orElse thrownMessage ''Unknown batch error''
         in (w\<lparr>logs := logs w @ map (failedEntryOf now dailySelectionId errorMessage) batchUsers\<rparr>,
             totals\<lparr>failed := failed totals + length batchUsers\<rparr>)))"

text \<open>
  One iteration of the batch loop. The log entries are mapped from the gateway's responses,
  \<open>batchUsers[index]\<close> giving the user: a response beyond the batch reads \<open>undefined\<close> and
  the property access throws a \<open>TypeError\<close> inside the \<open>try\<close>, which the \<open>catch\<close> handles as
  a failed batch; fewer responses than users give fewer entries.
\<close>

definition sendBatch ::
  "Messaging \<Rightarrow> nat \<Rightarrow> instant \<Rightarrow> BatchUserEntry list \<Rightarrow> NotificationPayload \<Rightarrow> object_id
     \<Rightarrow> nat \<Rightarrow> World \<times> BatchSendResult \<Rightarrow> World \<times> BatchSendResult" where
  "sendBatch fcm L now us payload dailySelectionId batchIndex acc =
     (case acc of (w0, totals) \<Rightarrow>
       (let batchStart = batchIndex * L;
            batchUsers = slice us batchStart (batchStart + L);
            multicastMessage = \<lparr>message_tokens = map entry_fcmToken batchUsers,
                                 message_title = payload_title payload,
                                 message_body = payload_body payload,
                                 message_data = payload_data payload\<rparr>;
            w = w0\<lparr>multicastCalls := Suc (multicastCalls w0)\<rparr>
        in case sendEachForMulticast fcm (multicastCalls w0) multicastMessage of
             MulticastThrows msg \<Rightarrow> batchFailed now dailySelectionId batchUsers msg (w, totals)
           | MulticastReturns batchResponse \<Rightarrow>
               if length batchUsers < length (responses batchResponse)
               then batchFailed now dailySelectionId batchUsers
                      (Some ''Cannot read properties of undefined (reading 'userId')'') (w, totals)
               else
                 (let rus = zip (responses batchResponse) batchUsers;
                      invalidUserIds = invalidUserIdsOf rus;
                      w1 = w\<lparr>logs := logs w @ map (logEntryOf now dailySelectionId) rus\<rparr>;
                      w2 = (if invalidUserIds \<noteq> [] then bulkMarkTokensInvalid invalidUserIds w1
                            else w1)
                  in (w2, totals\<lparr>sent := sent totals + successCount batchResponse,
                                  failed := failed totals + failureCount batchResponse\<rparr>))))"

definition sendToMultipleUsers ::
  "Messaging \<Rightarrow> nat \<Rightarrow> instant \<Rightarrow> BatchUserEntry list \<Rightarrow> NotificationPayload \<Rightarrow> object_id
     \<Rightarrow> World \<Rightarrow> (BatchSendResult \<times> World) option" where
  "sendToMultipleUsers fcm L now us payload dailySelectionId w =
     (case totalBatches (length us) L of
        None \<Rightarrow> None
      | Some n \<Rightarrow>
          (case fold (sendBatch fcm L now us payload dailySelectionId) [0..<n]
                  (w, \<lparr>sent = 0, failed = 0\<rparr>) of
             (w', totals) \<Rightarrow> Some (totals, w')))"

subsection \<open>sendDailyNotifications\<close>

text \<open>
  The recipient query: \<open>isActive: true\<close>, \<open>subscribedTopics\<close> containing the topic,
  \<open>fcmToken: { $ne: null, $exists: true }\<close>.
\<close>

definition dailyRecipients :: "object_id \<Rightarrow> User list \<Rightarrow> User list" where
  "dailyRecipients topicId us =
     filter (\<lambda>u. user_isActive u \<and> topicId \<in> set (subscribedTopics u) \<and> fcmToken u \<noteq> None) us"

definition batchEntryOf :: "User \<Rightarrow> BatchUserEntry" where
  "batchEntryOf u = \<lparr>entry_userId = user_id u, entry_fcmToken = orElse (fcmToken u) []\<rparr>"

definition sendDailyNotifications ::
  "Messaging \<Rightarrow> nat \<Rightarrow> instant \<Rightarrow> object_id \<Rightarrow> object_id \<Rightarrow> NotificationPayload
     \<Rightarrow> World \<Rightarrow> (BatchSendResult \<times> World) option" where
  "sendDailyNotifications fcm L now topicId dailySelectionId payload w =
     (let found = dailyRecipients topicId (users w)
      in if length found = 0 then Some (\<lparr>sent = 0, failed = 0\<rparr>, w)
         else sendToMultipleUsers fcm L now (map batchEntryOf found) payload dailySelectionId w)"

section \<open>Daily orchestrator (daily-flow.service.ts)\<close>

text \<open>
  \<open>getTodayDate\<close> is the UTC calendar day of the current instant.
  \<open>getYesterdayDate\<close> moves the clock back by one local calendar day
  (\<open>setDate(getDate() - 1)\<close>) and takes the UTC day of that instant: 24 hours earlier in
  a process time zone without a daylight-saving change in between, which is what is modelled.
  \<open>dateOfDay\<close> is \<open>new Date('YYYY-MM-DD')\<close>, midnight UTC of that day.
\<close>

definition getTodayDate :: "instant \<Rightarrow> day" where
  "getTodayDate now = now div 86400000"

definition getYesterdayDate :: "instant \<Rightarrow> day" where
  "getYesterdayDate now = (now - 86400000) div 86400000"

definition dateOfDay :: "day \<Rightarrow> instant" where
  "dateOfDay d = d * 86400000"

record FlowSummary =
  topicsProcessed :: nat
  questionsSelected :: nat
  summary_notificationsSent :: nat
  errors :: nat

text \<open>
  Persistence calls can throw. Which ones do during a run is given by the environment:
  \<open>env_topicsQueryFails\<close> for the initial query, \<open>env_faults i step\<close> for the steps of
  the \<open>i\<close>-th iteration of the topic loop. A throwing call has no effect on the store.
\<close>

datatype Step =
  ClaimQuestion | FindAnswer | UpsertSelection | FindSelection | SendNotifications | UpdateCounter

record Env =
  env_now :: instant
  env_fcm :: Messaging
  env_fcmBatchLimit :: nat
  env_topicsQueryFails :: bool
  env_faults :: "nat \<Rightarrow> Step \<Rightarrow> bool"

text \<open>\<open>topicModel.find({ isActive: true }).sort({ sortOrder: 1 })\<close>\<close>

definition findActiveTopics :: "World \<Rightarrow> Topic list" where
  "findActiveTopics w = sort_key topic_sortOrder (filter topic_isActive (topics w))"

text \<open>
  Step 2, the claim: \<open>findOneAndUpdate\<close> with filter \<open>{ topicId, isActive: true }\<close>, sort
  \<open>{ lastUsedDate: 1 }\<close> (a missing date sorts before every date, as \<open>None\<close> does in the
  order on \<open>option\<close>), update \<open>$set lastUsedDate, $inc usageCount\<close>, returning the document
  as it was before the update. Among equally old candidates the store's order decides;
  the stable sort keeps the collection's order.
\<close>

definition claimCandidates :: "object_id \<Rightarrow> Question list \<Rightarrow> (nat \<times> Question) list" where
  "claimCandidates topicId qs =
     sort_key (\<lambda>c. lastUsedDate (snd c))
       (filter (\<lambda>c. question_topicId (snd c) = topicId \<and> question_isActive (snd c))
          (enumerate 0 qs))"

definition claimQuestion :: "object_id \<Rightarrow> instant \<Rightarrow> World \<Rightarrow> Question option \<times> World" where
  "claimQuestion topicId now w =
     (case claimCandidates topicId (questions w) of
        [] \<Rightarrow> (None, w)
      | c # _ \<Rightarrow>
          (Some (snd c),
           w\<lparr>questions := (questions w)
                [fst c := (snd c)\<lparr>lastUsedDate := Some now, usageCount := usageCount (snd c) + 1\<rparr>]\<rparr>))"

text \<open>
  Step 4, the upsert: \<open>updateOne\<close> with filter \<open>{ date, topicId }\<close>, \<open>$setOnInsert\<close> only,
  \<open>upsert: true\<close>. A matching document is left as it is; otherwise one is inserted.
\<close>

definition findSelection :: "day \<Rightarrow> object_id \<Rightarrow> World \<Rightarrow> DailySelection option" where
  "findSelection today topicId w =
     find (\<lambda>s. selection_date s = today \<and> selection_topicId s = topicId) (selections w)"

definition upsertSelection ::
  "day \<Rightarrow> object_id \<Rightarrow> object_id \<Rightarrow> object_id option \<Rightarrow> World \<Rightarrow> World" where
  "upsertSelection today topicId questionId answerId w =
     (case findSelection today topicId w of
        Some _ \<Rightarrow> w
      | None \<Rightarrow>
          w\<lparr>selections := selections w @
               [\<lparr>selection_id = nextId w, selection_date = today, selection_topicId = topicId,
                 selection_questionId = questionId, aiAnswerId = answerId,
                 notificationsSent = 0\<rparr>],
            nextId := Suc (nextId w)\<rparr>)"

definition questionPreview :: "string \<Rightarrow> string" where
  "questionPreview text = (if length text > 100 then take 100 text @ ''...'' else text)"

definition dailyPayload :: "Topic \<Rightarrow> Question \<Rightarrow> object_id \<Rightarrow> NotificationPayload" where
  "dailyPayload topic selectedQuestion dailySelectionId =
     \<lparr>payload_title = ''Daily '' @ topic_name topic @ '' Question'',
      payload_body = questionPreview (question_text selectedQuestion),
      payload_data = Some [(''dailySelectionId'', dailySelectionId),
                           (''topicId'', topic_id topic)]\<rparr>"

text \<open>
  How the processing of one topic ended, after the message the loop logs last for it:
  \<open>Topic processing complete\<close>, \<open>No active questions available for topic\<close>,
  \<open>Failed to retrieve daily selection after upsert\<close>, or \<open>Error processing topic\<close> (the
  \<open>catch\<close> of the loop body).
\<close>

datatype TopicOutcome = Completed | NoActiveQuestion | SelectionNotFound | TopicError

text \<open>
  Steps 5 and 6 and the counter update. The inner \<open>try\<close> turns a throwing
  \<open>sendDailyNotifications\<close> into an error count and zero notifications sent.
  \<open>None\<close>: the dispatcher does not return.
\<close>

definition notifyAndCount ::
  "Env \<Rightarrow> nat \<Rightarrow> Topic \<Rightarrow> Question \<Rightarrow> DailySelection \<Rightarrow> World \<times> FlowSummary
     \<Rightarrow> (TopicOutcome \<times> World \<times> FlowSummary) option" where
  "notifyAndCount env i topic selectedQuestion dailySelection acc =
     (case acc of (w, summary) \<Rightarrow>
       (let dailySelectionId = selection_id dailySelection;
            payload = dailyPayload topic selectedQuestion dailySelectionId
        in case (if env_faults env i SendNotifications
                 then Some (0, w, summary\<lparr>errors := errors summary + 1\<rparr>)
                 else (case sendDailyNotifications (env_fcm env) (env_fcmBatchLimit env)
                              (env_now env) (topic_id topic) dailySelectionId payload w of
                         None \<Rightarrow> None
                       | Some (sendResult, w') \<Rightarrow> Some (sent sendResult, w', summary))) of
             None \<Rightarrow> None
           | Some (topicNotificationsSent, w1, summary1) \<Rightarrow>
               if env_faults env i UpdateCounter
               then Some (TopicError, w1, summary1\<lparr>errors := errors summary1 + 1\<rparr>)
               else Some (Completed,
                      w1\<lparr>selections :=
                           updateOne (\<lambda>s. selection_id s = dailySelectionId)
                             (\<lambda>s. s\<lparr>notificationsSent := notificationsSent s + topicNotificationsSent\<rparr>)
                             (selections w1)\<rparr>,
                      summary1\<lparr>summary_notificationsSent :=
                                  summary_notificationsSent summary1 + topicNotificationsSent,
                                topicsProcessed := topicsProcessed summary1 + 1\<rparr>)))"

text \<open>The body of the topic loop, with its \<open>try\<close>/\<open>catch\<close>.\<close>

definition processTopic ::
  "Env \<Rightarrow> day \<Rightarrow> nat \<Rightarrow> Topic \<Rightarrow> World \<times> FlowSummary
     \<Rightarrow> (TopicOutcome \<times> World \<times> FlowSummary) option" where
  "processTopic env today i topic acc =
     (case acc of (w, summary) \<Rightarrow>
       (let topicId = topic_id topic
        in if env_faults env i ClaimQuestion
           then Some (TopicError, w, summary\<lparr>errors := errors summary + 1\<rparr>)
           else
             (case claimQuestion topicId (env_now env) w of
                (None, _) \<Rightarrow> Some (NoActiveQuestion, w, summary\<lparr>errors := errors summary + 1\<rparr>)
              | (Some selectedQuestion, w1) \<Rightarrow>
                  (let questionId = question_id selectedQuestion;
                       summary1 = summary\<lparr>questionsSelected := questionsSelected summary + 1\<rparr>
                   in if env_faults env i FindAnswer
                      then Some (TopicError, w1, summary1\<lparr>errors := errors summary1 + 1\<rparr>)
                      else
                        (let answerId = map_option answer_id
                               (find (\<lambda>a. answer_questionId a = questionId) (answers w1))
                         in if env_faults env i UpsertSelection
                            then Some (TopicError, w1, summary1\<lparr>errors := errors summary1 + 1\<rparr>)
                            else
                              (let w2 = upsertSelection today topicId questionId answerId w1
                               in if env_faults env i FindSelection
                                  then Some (TopicError, w2,
                                         summary1\<lparr>errors := errors summary1 + 1\<rparr>)
                                  else
                                    (case findSelection today topicId w2 of
                                       None \<Rightarrow> Some (SelectionNotFound, w2,
                                                 summary1\<lparr>errors := errors summary1 + 1\<rparr>)
                                     | Some dailySelection \<Rightarrow>
                                         notifyAndCount env i topic selectedQuestion
                                           dailySelection (w2, summary1))))))))"

type_synonym FlowTrace = "(object_id \<times> TopicOutcome) list"

fun topicLoop ::
  "Env \<Rightarrow> day \<Rightarrow> nat \<Rightarrow> Topic list \<Rightarrow> FlowTrace \<times> World \<times> FlowSummary
     \<Rightarrow> (FlowTrace \<times> World \<times> FlowSummary) option" where
  "topicLoop env today i [] acc = Some acc"
| "topicLoop env today i (topic # rest) acc =
     (case acc of (trace, w, summary) \<Rightarrow>
        (case processTopic env today i topic (w, summary) of
           None \<Rightarrow> None
         | Some (outcome, w', summary') \<Rightarrow>
             topicLoop env today (Suc i) rest
               (trace @ [(topic_id topic, outcome)], w', summary')))"

text \<open>
  How a run ended: the outer \<open>catch\<close> (\<open>Critical error in daily flow orchestration\<close>), the
  early return without active topics, or the logged summary with the trace of the loop.
\<close>

datatype FlowResult = CriticalError | NoActiveTopics | FlowCompleted FlowTrace FlowSummary

definition runDailyFlow :: "Env \<Rightarrow> World \<Rightarrow> (FlowResult \<times> World) option" where
  "runDailyFlow env w =
     (let today = getTodayDate (env_now env);
          summary = \<lparr>topicsProcessed = 0, questionsSelected = 0,
                     summary_notificationsSent = 0, errors = 0\<rparr>
      in if env_topicsQueryFails env then Some (CriticalError, w)
         else
           (let activeTopics = findActiveTopics w
            in if length activeTopics = 0 then Some (NoActiveTopics, w)
               else
                 (case topicLoop env today 0 activeTopics ([], w, summary) of
                    None \<Rightarrow> None
                  | Some (trace, w', summary') \<Rightarrow> Some (FlowCompleted trace summary', w'))))"

subsection \<open>markAsRead and resetStaleStreaks\<close>

datatype Entity = TheDailySelection | TheUser | TheQuestion object_id

text \<open>
  What a service call can throw: a \<open>NotFoundException\<close>, or the error that
  \<open>generateAnswer\<close> rethrows (\<open>lastError\<close>, which is \<open>undefined\<close> until an attempt failed).
\<close>

record ApiError =
  error_status :: "int option"
  error_statusCode :: "int option"
  error_code :: "string option"
  error_message :: string

datatype ServiceError = NotFoundException Entity | GenerationError "ApiError option"

text \<open>\<open>new Date(d).toISOString().split('T')[0]\<close>\<close>

definition toISODate :: "instant \<Rightarrow> day" where
  "toISODate t = t div 86400000"

definition lastActiveDay :: "User \<Rightarrow> day option" where
  "lastActiveDay user =
     (case streak user of
        None \<Rightarrow> None
      | Some st \<Rightarrow> (case streak_lastActiveDate st of None \<Rightarrow> None | Some d \<Rightarrow> Some (toISODate d)))"

definition currentStreak :: "User \<Rightarrow> int" where
  "currentStreak user = (case streak user of None \<Rightarrow> 0 | Some st \<Rightarrow> streak_count st)"

definition markAsRead :: "instant \<Rightarrow> object_id \<Rightarrow> object_id \<Rightarrow> World \<Rightarrow> ServiceError + World" where
  "markAsRead now userId dailySelectionId w =
     (let today = getTodayDate now;
          yesterday = getYesterdayDate now
      in case find (\<lambda>s. selection_id s = dailySelectionId) (selections w) of
           None \<Rightarrow> Inl (NotFoundException TheDailySelection)
         | Some dailySelection \<Rightarrow>
             (case find (\<lambda>u. user_id u = userId) (users w) of
                None \<Rightarrow> Inl (NotFoundException TheUser)
              | Some user \<Rightarrow>
                  (let lastActiveDate = lastActiveDay user
                   in if lastActiveDate = Some today then Inr w
                      else
                        (let newCount = (if lastActiveDate = Some yesterday
                                         then currentStreak user + 1 else 1)
                         in Inr (w\<lparr>users :=
                                  updateOne (\<lambda>u. user_id u = userId)
                                    (\<lambda>u. u\<lparr>streak := Some \<lparr>streak_count = newCount,
                                              streak_lastActiveDate = Some (dateOfDay today)\<rparr>\<rparr>)
                                    (users w)\<rparr>)))))"

text \<open>
  \<open>resetStaleStreaks\<close>: midnight two days ago (in the process time zone, taken as UTC),
  then \<open>updateMany\<close> on \<open>lastActiveDate < twoDaysAgo\<close> and \<open>count > 0\<close>.
\<close>

definition resetStaleStreaks :: "instant \<Rightarrow> World \<Rightarrow> World" where
  "resetStaleStreaks now w =
     (let twoDaysAgo = dateOfDay (getTodayDate now - 2)
      in w\<lparr>users :=
           updateMany
             (\<lambda>u. case streak u of
                     None \<Rightarrow> False
                   | Some st \<Rightarrow>
                       (case streak_lastActiveDate st of None \<Rightarrow> False | Some d \<Rightarrow> d < twoDaysAgo)
                       \<and> streak_count st > 0)
             (\<lambda>u. u\<lparr>streak := map_option (\<lambda>st. st\<lparr>streak_count := 0\<rparr>) (streak u)\<rparr>)
             (users w)\<rparr>)"

section \<open>Answer generator (ai-answers.service.ts)\<close>

definition MAX_RETRIES :: nat where
  "MAX_RETRIES = 3"

definition BASE_RETRY_DELAY_MS :: nat where
  "BASE_RETRY_DELAY_MS = 1000"

text \<open>
  The text-generation gateway (the OpenAI client) is external: a call either throws an
  error or returns a completion, of which only \<open>choices[0]?.message?.content\<close> and
  \<open>usage?.total_tokens\<close> are read. As for the messaging gateway, it is a function of the
  number of the call and of the request.
\<close>

record ChatCompletion =
  completion_content :: "string option"
  completion_totalTokens :: "nat option"

record ChatRequest =
  request_model :: string
  request_system :: string
  request_user :: string

type_synonym TextApi = "nat \<Rightarrow> ChatRequest \<Rightarrow> ApiError + ChatCompletion"

record GenerateAnswerResult =
  result_answer :: string
  result_tokenCount :: nat

definition isRetryableError :: "ApiError \<Rightarrow> bool" where
  "isRetryableError error =
     (let status = (case error_status error of Some s \<Rightarrow> Some s | None \<Rightarrow> error_statusCode error)
      in if status = Some 429 then True
         else if (case status of None \<Rightarrow> False | Some s \<Rightarrow> s \<ge> 500) then True
         else
           (let code = error_code error
            in if code = Some ''ECONNRESET'' \<or> code = Some ''ETIMEDOUT''
                  \<or> code = Some ''ENOTFOUND'' \<or> code = Some ''EAI_AGAIN''
               then True
               else False))"

definition systemPrompt :: "string \<Rightarrow> string \<Rightarrow> string" where
  "systemPrompt difficulty topicName =
     ''You are an expert developer educator.'' @ '' '' @
     ''Provide a clear, concise, and practical answer to the following '' @ difficulty
        @ '' level '' @ topicName @ '' question.'' @ '' '' @
     ''Include code examples where relevant.'' @ '' '' @
     ''Format the answer in markdown.'' @ '' '' @
     ''Keep it under 500 words.''"

text \<open>
  The retry loop of \<open>generateAnswer\<close>, from attempt \<open>attempt\<close> on. A success returns from
  inside the loop; a failure that is not retryable, or the last attempt's, leaves the loop
  and \<open>lastError\<close> is thrown; otherwise the loop sleeps and goes on.
\<close>

function attemptLoop ::
  "TextApi \<Rightarrow> ChatRequest \<Rightarrow> nat \<Rightarrow> ApiError option \<Rightarrow> World
     \<Rightarrow> (ApiError option + GenerateAnswerResult) \<times> World" where
  "attemptLoop api request attempt lastError w =
     (if attempt \<le> MAX_RETRIES
      then
        (let w1 = w\<lparr>apiCalls := Suc (apiCalls w)\<rparr>
         in case api (apiCalls w) request of
              Inr response \<Rightarrow>
                (Inr \<lparr>result_answer = orElse (completion_content response) [],
                      result_tokenCount = orElse (completion_totalTokens response) 0\<rparr>, w1)
            | Inl error \<Rightarrow>
                if \<not> isRetryableError error \<or> attempt = MAX_RETRIES
                then (Inl (Some error), w1)
                else attemptLoop api request (attempt + 1) (Some error)
                       (w1\<lparr>sleeps := sleeps w1 @ [BASE_RETRY_DELAY_MS * 2 ^ (attempt - 1)]\<rparr>))
      else (Inl lastError, w))"
  by pat_completeness auto
termination
  by (relation "measure (\<lambda>(api, request, attempt, lastError, w). Suc MAX_RETRIES - attempt)") auto

declare attemptLoop.simps [simp del]

definition generateAnswer ::
  "TextApi \<Rightarrow> string \<Rightarrow> string \<Rightarrow> string \<Rightarrow> string \<Rightarrow> World
     \<Rightarrow> (ApiError option + GenerateAnswerResult) \<times> World" where
  "generateAnswer api model questionText topicName difficulty w =
     attemptLoop api
       \<lparr>request_model = model, request_system = systemPrompt difficulty topicName,
        request_user = questionText\<rparr> 1 None w"

text \<open>
  The configuration read by the generator: \<open>openai.model\<close> (the model requested) and
  \<open>OPENAI_MODEL\<close> (the model recorded on the answer), each with its default applied.
\<close>

record Config =
  config_openaiModel :: string
  config_OPENAI_MODEL :: string

definition upsertAnswer ::
  "object_id \<Rightarrow> string \<Rightarrow> instant \<Rightarrow> string \<Rightarrow> nat \<Rightarrow> World \<Rightarrow> AiAnswer \<times> World" where
  "upsertAnswer questionId answer now model tokens w =
     (let setFields = (\<lambda>a. a\<lparr>answer_text := answer, generatedAt := now, answer_model := model,
                              tokenCount := Some tokens, isStale := False\<rparr>)
      in case find (\<lambda>a. answer_questionId a = questionId) (answers w) of
           Some existing \<Rightarrow>
             (setFields existing,
              w\<lparr>answers := updateOne (\<lambda>a. answer_questionId a = questionId) setFields (answers w)\<rparr>)
         | None \<Rightarrow>
             (let inserted = \<lparr>answer_id = nextId w, answer_questionId = questionId,
                               answer_text = answer, generatedAt = now, answer_model = model,
                               tokenCount = Some tokens, isStale = False\<rparr>
              in (inserted, w\<lparr>answers := answers w @ [inserted], nextId := Suc (nextId w)\<rparr>)))"

definition generateForQuestion ::
  "TextApi \<Rightarrow> Config \<Rightarrow> instant \<Rightarrow> object_id \<Rightarrow> World \<Rightarrow> (ServiceError + AiAnswer) \<times> World" where
  "generateForQuestion api config now questionId w =
     (case find (\<lambda>a. answer_questionId a = questionId \<and> isStale a = False) (answers w) of
        Some existing \<Rightarrow> (Inr existing, w)
      | None \<Rightarrow>
          (case find (\<lambda>q. question_id q = questionId) (questions w) of
             None \<Rightarrow> (Inl (NotFoundException (TheQuestion questionId)), w)
           | Some question \<Rightarrow>
               (let topicName =
                      (case find (\<lambda>t. topic_id t = question_topicId question) (topics w) of
                         None \<Rightarrow> ''General'' | Some topic \<Rightarrow> topic_name topic)
                in case generateAnswer api (config_openaiModel config) (question_text question)
                          topicName (question_difficulty question) w of
                     (Inl error, w1) \<Rightarrow> (Inl (GenerationError error), w1)
                   | (Inr result, w1) \<Rightarrow>
                       (case upsertAnswer questionId (result_answer result) now
                               (config_OPENAI_MODEL config) (result_tokenCount result) w1 of
                          (saved, w2) \<Rightarrow> (Inr saved, w2)))))"

definition markAsStale :: "object_id \<Rightarrow> World \<Rightarrow> World" where
  "markAsStale questionId w =
     w\<lparr>answers := updateOne (\<lambda>a. answer_questionId a = questionId)
                      (\<lambda>a. a\<lparr>isStale := True\<rparr>) (answers w)\<rparr>"

section \<open>The operations of the system\<close>

text \<open>
  Every state-changing entry point of the three services, as one step function on the
  world. The gateways, the configuration and the batch limit are fixed for the system; the
  clock and the faults of the persistence layer come with each step.
\<close>

record System =
  system_fcm :: Messaging
  system_fcmBatchLimit :: nat
  system_api :: TextApi
  system_config :: Config

datatype Operation =
    SendToUser object_id string NotificationPayload "object_id option"
  | SendToMultipleUsers "BatchUserEntry list" NotificationPayload object_id
  | SendDailyNotifications object_id object_id NotificationPayload
  | CleanupInvalidTokens
  | RunDailyFlow bool "nat \<Rightarrow> Step \<Rightarrow> bool"
  | MarkAsRead object_id object_id
  | ResetStaleStreaks
  | GenerateForQuestion object_id
  | MarkAsStale object_id

fun exec :: "System \<Rightarrow> instant \<Rightarrow> Operation \<Rightarrow> World \<Rightarrow> World option" where
  "exec sys now (SendToUser userId token payload dailySelectionId) w =
     Some (snd (sendToUser (system_fcm sys) now userId token payload dailySelectionId w))"
| "exec sys now (SendToMultipleUsers us payload dailySelectionId) w =
     map_option snd
       (sendToMultipleUsers (system_fcm sys) (system_fcmBatchLimit sys) now us payload
          dailySelectionId w)"
| "exec sys now (SendDailyNotifications topicId dailySelectionId payload) w =
     map_option snd
       (sendDailyNotifications (system_fcm sys) (system_fcmBatchLimit sys) now topicId
          dailySelectionId payload w)"
| "exec sys now CleanupInvalidTokens w = Some (snd (cleanupInvalidTokens w))"
| "exec sys now (RunDailyFlow topicsQueryFails faults) w =
     map_option snd
       (runDailyFlow \<lparr>env_now = now, env_fcm = system_fcm sys,
                       env_fcmBatchLimit = system_fcmBatchLimit sys,
                       env_topicsQueryFails = topicsQueryFails, env_faults = faults\<rparr> w)"
| "exec sys now (MarkAsRead userId dailySelectionId) w =
     (case markAsRead now userId dailySelectionId w of Inl _ \<Rightarrow> Some w | Inr w' \<Rightarrow> Some w')"
| "exec sys now ResetStaleStreaks w = Some (resetStaleStreaks now w)"
| "exec sys now (GenerateForQuestion questionId) w =
     Some (snd (generateForQuestion (system_api sys) (system_config sys) now questionId w))"
| "exec sys now (MarkAsStale questionId) w = Some (markAsStale questionId w)"

fun execAll :: "System \<Rightarrow> (instant \<times> Operation) list \<Rightarrow> World \<Rightarrow> World option" where
  "execAll sys [] w = Some w"
| "execAll sys (step # rest) w =
     (case exec sys (fst step) (snd step) w of
        None \<Rightarrow> None
      | Some w' \<Rightarrow> execAll sys rest w')"

section \<open>Specification-side vocabulary\<close>

subsection \<open>Batched sending\<close>








subsection \<open>The daily flow\<close>

text \<open>
  The questions a claim for a topic may pick, and a question after its claim. What a
  dispatch and what a step of the flow may change in the world (\<open>dispatchEffect\<close>,
  \<open>flowEffect\<close>): both are reflexive and transitive, so they hold over loops. The
  uniqueness of (date, topic) among the selections. The outcome and the number of errors
  that the faults of an iteration and the presence of an active question call for, and the
  trace and error count of a whole loop.
\<close>

definition eligibleQuestion :: "object_id \<Rightarrow> Question \<Rightarrow> bool" where
  "eligibleQuestion topicId q \<longleftrightarrow> question_topicId q = topicId \<and> question_isActive q"

definition claimed :: "instant \<Rightarrow> Question \<Rightarrow> Question" where
  "claimed now q = q\<lparr>lastUsedDate := Some now, usageCount := usageCount q + 1\<rparr>"

definition dispatchEffect :: "World \<Rightarrow> World \<Rightarrow> bool" where
  "dispatchEffect w w' \<longleftrightarrow>
     topics w' = topics w \<and> questions w' = questions w \<and> answers w' = answers w
   \<and> selections w' = selections w \<and> nextId w' = nextId w \<and> sendCalls w' = sendCalls w
   \<and> apiCalls w' = apiCalls w \<and> sleeps w' = sleeps w
   \<and> map user_id (users w') = map user_id (users w)
   \<and> (\<exists>rows. logs w' = logs w @ rows
         \<and> (\<forall>row \<in> set rows. log_status row = SENT \<or> log_status row = FAILED))"

definition selectionKey :: "DailySelection \<Rightarrow> day \<times> object_id" where
  "selectionKey s = (selection_date s, selection_topicId s)"

definition uniqueSelections :: "World \<Rightarrow> bool" where
  "uniqueSelections w \<longleftrightarrow> distinct (map selectionKey (selections w))"


definition sameSelection :: "DailySelection \<Rightarrow> DailySelection \<Rightarrow> bool" where
  "sameSelection s s' \<longleftrightarrow>
     selection_id s' = selection_id s \<and> selection_date s' = selection_date s
   \<and> selection_topicId s' = selection_topicId s
   \<and> selection_questionId s' = selection_questionId s \<and> aiAnswerId s' = aiAnswerId s
   \<and> notificationsSent s \<le> notificationsSent s'"

definition sameQuestion :: "Question \<Rightarrow> Question \<Rightarrow> bool" where
  "sameQuestion q q' \<longleftrightarrow>
     question_id q' = question_id q \<and> question_topicId q' = question_topicId q
   \<and> question_text q' = question_text q \<and> question_difficulty q' = question_difficulty q
   \<and> question_isActive q' = question_isActive q"

definition flowEffect :: "World \<Rightarrow> World \<Rightarrow> bool" where
  "flowEffect w w' \<longleftrightarrow>
     topics w' = topics w \<and> answers w' = answers w
   \<and> sendCalls w' = sendCalls w \<and> apiCalls w' = apiCalls w \<and> sleeps w' = sleeps w
   \<and> list_all2 sameQuestion (questions w) (questions w')
   \<and> (\<exists>kept added. selections w' = kept @ added
         \<and> list_all2 sameSelection (selections w) kept)
   \<and> (uniqueSelections w \<longrightarrow> uniqueSelections w')
   \<and> map user_id (users w') = map user_id (users w)
   \<and> (\<exists>rows. logs w' = logs w @ rows
         \<and> (\<forall>row \<in> set rows. log_status row = SENT \<or> log_status row = FAILED))"

definition hasEligibleQuestion :: "object_id \<Rightarrow> World \<Rightarrow> bool" where
  "hasEligibleQuestion t w \<longleftrightarrow> (\<exists>q \<in> set (questions w). eligibleQuestion t q)"

definition expectedOutcome :: "Env \<Rightarrow> nat \<Rightarrow> bool \<Rightarrow> TopicOutcome" where
  "expectedOutcome env i hasQuestion =
     (if env_faults env i ClaimQuestion then TopicError
      else if \<not> hasQuestion then NoActiveQuestion
      else if env_faults env i FindAnswer \<or> env_faults env i UpsertSelection
              \<or> env_faults env i FindSelection \<or> env_faults env i UpdateCounter
      then TopicError
      else Completed)"

definition expectedErrors :: "Env \<Rightarrow> nat \<Rightarrow> bool \<Rightarrow> nat" where
  "expectedErrors env i hasQuestion =
     (if env_faults env i ClaimQuestion \<or> \<not> hasQuestion \<or> env_faults env i FindAnswer
         \<or> env_faults env i UpsertSelection \<or> env_faults env i FindSelection
      then 1
      else (if env_faults env i SendNotifications then 1 else 0)
         + (if env_faults env i UpdateCounter then 1 else 0))"

fun expectedTrace :: "Env \<Rightarrow> World \<Rightarrow> nat \<Rightarrow> Topic list \<Rightarrow> FlowTrace" where
  "expectedTrace env w i [] = []"
| "expectedTrace env w i (topic # rest) =
     (topic_id topic, expectedOutcome env i (hasEligibleQuestion (topic_id topic) w))
       # expectedTrace env w (Suc i) rest"

fun expectedErrorCount :: "Env \<Rightarrow> World \<Rightarrow> nat \<Rightarrow> Topic list \<Rightarrow> nat" where
  "expectedErrorCount env w i [] = 0"
| "expectedErrorCount env w i (topic # rest) =
     expectedErrors env i (hasEligibleQuestion (topic_id topic) w)
       + expectedErrorCount env w (Suc i) rest"

definition countOf :: "('a \<Rightarrow> bool) \<Rightarrow> 'a list \<Rightarrow> nat" where
  "countOf p xs = length (filter p xs)"

subsection \<open>Streaks\<close>






subsection \<open>Answer generation\<close>

text \<open>
  The retry condition in the words of the specification, the request and the result of a
  generation, the gateway's outcome for the \<open>k\<close>-th call from a given world on, the world
  after \<open>n\<close> calls and the given waits, and the lookups of the answer cache.
\<close>

definition httpStatus :: "ApiError \<Rightarrow> int option" where
  "httpStatus e = (case error_status e of Some s \<Rightarrow> Some s | None \<Rightarrow> error_statusCode e)"

definition retryableBySpec :: "ApiError \<Rightarrow> bool" where
  "retryableBySpec e \<longleftrightarrow>
     httpStatus e = Some 429
   \<or> (case httpStatus e of None \<Rightarrow> False | Some s \<Rightarrow> s \<ge> 500)
   \<or> error_code e \<in> {Some ''ECONNRESET'', Some ''ETIMEDOUT'', Some ''ENOTFOUND'', Some ''EAI_AGAIN''}"

definition answerOf :: "ChatCompletion \<Rightarrow> GenerateAnswerResult" where
  "answerOf response =
     \<lparr>result_answer = orElse (completion_content response) [],
      result_tokenCount = orElse (completion_totalTokens response) 0\<rparr>"

definition chatRequest :: "string \<Rightarrow> string \<Rightarrow> string \<Rightarrow> string \<Rightarrow> ChatRequest" where
  "chatRequest model questionText topicName difficulty =
     \<lparr>request_model = model, request_system = systemPrompt difficulty topicName,
      request_user = questionText\<rparr>"

definition nthOutcome ::
  "TextApi \<Rightarrow> string \<Rightarrow> string \<Rightarrow> string \<Rightarrow> string \<Rightarrow> World \<Rightarrow> nat
     \<Rightarrow> ApiError + ChatCompletion" where
  "nthOutcome api model questionText topicName difficulty w k =
     api (apiCalls w + k) (chatRequest model questionText topicName difficulty)"

definition afterCalls :: "nat \<Rightarrow> nat list \<Rightarrow> World \<Rightarrow> World" where
  "afterCalls n waits w = w\<lparr>apiCalls := apiCalls w + n, sleeps := sleeps w @ waits\<rparr>"

definition freshAnswer :: "object_id \<Rightarrow> World \<Rightarrow> AiAnswer option" where
  "freshAnswer questionId w =
     find (\<lambda>a. answer_questionId a = questionId \<and> isStale a = False) (answers w)"


definition findQuestion :: "object_id \<Rightarrow> World \<Rightarrow> Question option" where
  "findQuestion questionId w = find (\<lambda>q. question_id q = questionId) (questions w)"


subsection \<open>Notification log\<close>

text \<open>The log of \<open>w'\<close> is the log of \<open>w\<close> followed by rows that are sent or failed.\<close>

definition onlySentOrFailed :: "NotificationLog list \<Rightarrow> bool" where
  "onlySentOrFailed rows \<longleftrightarrow> (\<forall>row \<in> set rows. log_status row = SENT \<or> log_status row = FAILED)"

definition logsExtended :: "World \<Rightarrow> World \<Rightarrow> bool" where
  "logsExtended w w' \<longleftrightarrow> (\<exists>rows. logs w' = logs w @ rows \<and> onlySentOrFailed rows)"

section \<open>Example data\<close>


definition exampleGateway :: Messaging where
  "exampleGateway =
     \<lparr>send = (\<lambda>i token payload. Inr ''message-id''),
      sendEachForMulticast = (\<lambda>i m.
        if i = 0
        then MulticastReturns
               \<lparr>responses = map (\<lambda>token. if token = ''tokA''
                    then \<lparr>success = True, response_error = None\<rparr>
                    else \<lparr>success = False, response_error =
                           Some \<lparr>fcm_code = Some ''messaging/invalid-registration-token'',
                                 fcm_message = Some ''bad token''\<rparr>\<rparr>) (message_tokens m),
                successCount = length (filter (\<lambda>token. token = ''tokA'') (message_tokens m)),
                failureCount = length (filter (\<lambda>token. token \<noteq> ''tokA'') (message_tokens m))\<rparr>
        else MulticastThrows (Some ''gateway down''))\<rparr>"

definition exampleRecipients :: "BatchUserEntry list" where
  "exampleRecipients =
     [\<lparr>entry_userId = 1, entry_fcmToken = ''tokA''\<rparr>,
      \<lparr>entry_userId = 2, entry_fcmToken = ''tokB''\<rparr>,
      \<lparr>entry_userId = 3, entry_fcmToken = ''tokC''\<rparr>]"

definition examplePayload :: NotificationPayload where
  "examplePayload = \<lparr>payload_title = ''Daily JavaScript Question'', payload_body = ''What is a closure?'',
     payload_data = None\<rparr>"

definition exampleNow :: instant where
  "exampleNow = 20000 * 86400000 + 18000000"

definition questionA :: Question where
  "questionA = \<lparr>question_id = 10, question_topicId = 201, question_text = ''What is a closure?'',
     question_difficulty = ''beginner'', question_isActive = True, lastUsedDate = None,
     usageCount = 0\<rparr>"

definition questionB :: Question where
  "questionB = \<lparr>question_id = 11, question_topicId = 201, question_text = ''What is hoisting?'',
     question_difficulty = ''beginner'', question_isActive = True,
     lastUsedDate = Some (19997 * 86400000), usageCount = 2\<rparr>"

definition questionP :: Question where
  "questionP = \<lparr>question_id = 12, question_topicId = 202, question_text = ''What is a decorator?'',
     question_difficulty = ''intermediate'', question_isActive = True, lastUsedDate = None,
     usageCount = 0\<rparr>"

definition topicJavaScript :: Topic where
  "topicJavaScript = \<lparr>topic_id = 201, topic_name = ''JavaScript'', topic_isActive = True,
     topic_sortOrder = 1\<rparr>"

definition topicPython :: Topic where
  "topicPython = \<lparr>topic_id = 202, topic_name = ''Python'', topic_isActive = True,
     topic_sortOrder = 2\<rparr>"

definition topicRust :: Topic where
  "topicRust = \<lparr>topic_id = 203, topic_name = ''Rust'', topic_isActive = True,
     topic_sortOrder = 3\<rparr>"

definition answerA :: AiAnswer where
  "answerA = \<lparr>answer_id = 20, answer_questionId = 10, answer_text = ''A closure is a function.'',
     generatedAt = 19999 * 86400000, answer_model = ''gpt-4'', tokenCount = Some 42,
     isStale = False\<rparr>"

definition answerP :: AiAnswer where
  "answerP = \<lparr>answer_id = 21, answer_questionId = 12, answer_text = ''Old text.'',
     generatedAt = 19990 * 86400000, answer_model = ''gpt-4'', tokenCount = Some 7,
     isStale = True\<rparr>"

definition userAda :: User where
  "userAda = \<lparr>user_id = 501, user_isActive = True, subscribedTopics = [201, 202],
     fcmToken = Some ''tokA'', streak = None\<rparr>"

definition userBob :: User where
  "userBob = \<lparr>user_id = 502, user_isActive = True, subscribedTopics = [201],
     fcmToken = Some ''__invalid__'',
     streak = Some \<lparr>streak_count = 4, streak_lastActiveDate = Some (19999 * 86400000)\<rparr>\<rparr>"

definition selectionToday :: DailySelection where
  "selectionToday = \<lparr>selection_id = 30, selection_date = 20000, selection_topicId = 201,
     selection_questionId = 11, aiAnswerId = None, notificationsSent = 5\<rparr>"

definition exampleCatalog :: World where
  "exampleCatalog = \<lparr>topics = [topicPython, topicJavaScript, topicRust],
     questions = [questionB, questionA, questionP], answers = [answerA, answerP],
     selections = [], users = [userAda, userBob], logs = [], nextId = 100, sendCalls = 0,
     multicastCalls = 0, apiCalls = 0, sleeps = []\<rparr>"

definition exampleReplay :: World where
  "exampleReplay = exampleCatalog\<lparr>selections := [selectionToday]\<rparr>"

definition exampleEnv :: Env where
  "exampleEnv = \<lparr>env_now = exampleNow, env_fcm = exampleGateway, env_fcmBatchLimit = 2,
     env_topicsQueryFails = False,
     env_faults = (\<lambda>i step. i = 1 \<and> step = UpsertSelection)\<rparr>"


definition exampleApi :: TextApi where
  "exampleApi = (\<lambda>i request.
     if i < 2
     then Inl \<lparr>error_status = Some 429, error_statusCode = None, error_code = None,
               error_message = ''Rate limit exceeded''\<rparr>
     else Inr \<lparr>completion_content = Some ''Hoisting moves declarations up.'',
               completion_totalTokens = Some 57\<rparr>)"

definition exampleOnceLimitedApi :: TextApi where
  "exampleOnceLimitedApi = (\<lambda>i request.
     if i < 1
     then Inl \<lparr>error_status = Some 429, error_statusCode = None, error_code = None,
               error_message = ''Rate limit exceeded''\<rparr>
     else Inr \<lparr>completion_content = Some ''Hoisting moves declarations up.'',
               completion_totalTokens = Some 57\<rparr>)"



definition limitError :: ApiError where
  "limitError = \<lparr>error_status = Some 429, error_statusCode = None, error_code = None,
     error_message = ''Rate limit exceeded''\<rparr>"

definition rejectError :: ApiError where
  "rejectError = \<lparr>error_status = Some 400, error_statusCode = None, error_code = None,
     error_message = ''Bad request''\<rparr>"

definition timeoutError :: ApiError where
  "timeoutError = \<lparr>error_status = None, error_statusCode = None, error_code = Some ''ETIMEDOUT'',
     error_message = ''timed out''\<rparr>"

definition exampleRejectingApi :: TextApi where
  "exampleRejectingApi = (\<lambda>i request.
     Inl \<lparr>error_status = Some 400, error_statusCode = None, error_code = None,
          error_message = ''Bad request''\<rparr>)"

definition exampleDownApi :: TextApi where
  "exampleDownApi = (\<lambda>i request.
     Inl \<lparr>error_status = None, error_statusCode = None, error_code = Some ''ETIMEDOUT'',
          error_message = ''timed out''\<rparr>)"

definition exampleConfig :: Config where
  "exampleConfig = \<lparr>config_openaiModel = ''gpt-4'', config_OPENAI_MODEL = ''gpt-4''\<rparr>"


definition exampleSystem :: System where
  "exampleSystem = \<lparr>system_fcm = exampleGateway, system_fcmBatchLimit = 2,
     system_api = exampleOnceLimitedApi, system_config = exampleConfig\<rparr>"

definition exampleSteps :: "(instant \<times> Operation) list" where
  "exampleSteps =
     [(exampleNow, SendToUser 501 ''tokA'' examplePayload None),
      (exampleNow, GenerateForQuestion 11),
      (exampleNow, RunDailyFlow False (\<lambda>i step. i = 1 \<and> step = UpsertSelection)),
      (exampleNow, SendToMultipleUsers exampleRecipients examplePayload 30),
      (exampleNow + 1000, MarkAsRead 501 30),
      (exampleNow + 2000, CleanupInvalidTokens),
      (exampleNow + 86400000, RunDailyFlow False (\<lambda>i step. False))]"

chapter \<open>Verification\<close>

section \<open>Batched sending\<close>















section \<open>The daily flow\<close>

lemma set_claimCandidates:
  "set (claimCandidates t qs) = {(k, q). k < length qs \<and> q = qs ! k \<and> eligibleQuestion t q}"
  by (auto simp: claimCandidates_def in_set_enumerate_eq eligibleQuestion_def)

lemma sorted_claimCandidates: "sorted (map (\<lambda>c. lastUsedDate (snd c)) (claimCandidates t qs))"
  by (simp add: claimCandidates_def)

lemma claimCandidates_Nil:
  "claimCandidates t qs = [] \<longleftrightarrow> \<not> (\<exists>q \<in> set qs. eligibleQuestion t q)"
proof -
  have "claimCandidates t qs = [] \<longleftrightarrow> set (claimCandidates t qs) = {}" by simp
  also have "\<dots> \<longleftrightarrow> \<not> (\<exists>q \<in> set qs. eligibleQuestion t q)"
    unfolding set_claimCandidates by (fastforce simp: in_set_conv_nth)
  finally show ?thesis .
qed

lemma claimCandidates_Cons:
  assumes "claimCandidates t qs = c # cs"
  shows "fst c < length qs" "snd c = qs ! fst c" "eligibleQuestion t (snd c)"
    "\<forall>q' \<in> set qs. eligibleQuestion t q' \<longrightarrow> lastUsedDate (snd c) \<le> lastUsedDate q'"
proof -
  have "c \<in> set (claimCandidates t qs)" using assms by simp
  then show "fst c < length qs" "snd c = qs ! fst c" "eligibleQuestion t (snd c)"
    unfolding set_claimCandidates by auto
  have le: "\<forall>x \<in> set (claimCandidates t qs). lastUsedDate (snd c) \<le> lastUsedDate (snd x)"
    using sorted_claimCandidates[of t qs] unfolding assms by auto
  show "\<forall>q' \<in> set qs. eligibleQuestion t q' \<longrightarrow> lastUsedDate (snd c) \<le> lastUsedDate q'"
  proof (intro ballI impI)
    fix q' assume "q' \<in> set qs" "eligibleQuestion t q'"
    then obtain k where "k < length qs" "q' = qs ! k" by (auto simp: in_set_conv_nth)
    with \<open>eligibleQuestion t q'\<close> have "(k, q') \<in> set (claimCandidates t qs)"
      unfolding set_claimCandidates by simp
    with le show "lastUsedDate (snd c) \<le> lastUsedDate q'" by fastforce
  qed
qed

lemma claimQuestion_none:
  assumes "\<not> (\<exists>q \<in> set (questions w). eligibleQuestion t q)"
  shows "claimQuestion t now w = (None, w)"
  using assms claimCandidates_Nil[of t "questions w"] by (simp add: claimQuestion_def)

lemma claimQuestion_some:
  assumes "\<exists>q \<in> set (questions w). eligibleQuestion t q"
  shows "\<exists>k < length (questions w).
           eligibleQuestion t (questions w ! k)
         \<and> (\<forall>q' \<in> set (questions w). eligibleQuestion t q'
               \<longrightarrow> lastUsedDate (questions w ! k) \<le> lastUsedDate q')
         \<and> claimQuestion t now w =
             (Some (questions w ! k),
              w\<lparr>questions := (questions w)[k := claimed now (questions w ! k)]\<rparr>)"
proof -
  from assms obtain c cs where cc: "claimCandidates t (questions w) = c # cs"
    using claimCandidates_Nil[of t "questions w"] by (cases "claimCandidates t (questions w)") auto
  from claimCandidates_Cons[OF cc] show ?thesis
    by (intro exI[of _ "fst c"]) (simp add: claimQuestion_def cc claimed_def)
qed

lemma claimQuestion_two_questions:
  assumes "questions w = [A, B] \<or> questions w = [B, A]" "eligibleQuestion t A" "eligibleQuestion t B"
    "lastUsedDate A = None" "lastUsedDate B = Some d" "usageCount A = 0"
  shows "\<exists>w'. claimQuestion t now w = (Some A, w') 
     \<and> set (questions w') = {A\<lparr>lastUsedDate := Some now, usageCount := 1\<rparr>, B}"
  using assms
  by (elim disjE) (simp_all add: claimQuestion_def claimCandidates_def eligibleQuestion_def insert_commute)

lemma dispatchEffect_refl: "dispatchEffect w w"
  by (simp add: dispatchEffect_def)

lemma dispatchEffect_trans: "dispatchEffect w w1 \<Longrightarrow> dispatchEffect w1 w2 \<Longrightarrow> dispatchEffect w w2"
  by (auto simp: dispatchEffect_def)

lemma map_user_id_updateMany:
  "map user_id (updateMany p (\<lambda>u. u\<lparr>fcmToken := x\<rparr>) us) = map user_id us"
  by (simp add: updateMany_def comp_def if_distrib cong: if_cong)

lemma logEntryOf_status:
  "log_status (logEntryOf now sid (r, u)) = (if success r then SENT else FAILED)"
  by (simp add: logEntryOf_def)

lemma sendBatch_dispatchEffect:
  "sendBatch fcm L now us payload sid k (w0, t0) = (w1, t1) \<Longrightarrow> dispatchEffect w0 w1"
  by (auto simp: sendBatch_def batchFailed_def Let_def dispatchEffect_def bulkMarkTokensInvalid_def
      map_user_id_updateMany failedEntryOf_def logEntryOf_status
      split: MulticastOutcome.splits if_splits)

lemma sendBatches_dispatchEffect:
  "fold (sendBatch fcm L now us payload sid) ks (w0, t0) = (w1, t1) \<Longrightarrow> dispatchEffect w0 w1"
proof (induction ks arbitrary: w0 t0)
  case Nil
  then show ?case by (simp add: dispatchEffect_refl)
next
  case (Cons k ks)
  obtain wk tk where st: "sendBatch fcm L now us payload sid k (w0, t0) = (wk, tk)"
    by (cases "sendBatch fcm L now us payload sid k (w0, t0)")
  with Cons.prems have "fold (sendBatch fcm L now us payload sid) ks (wk, tk) = (w1, t1)" by simp
  from Cons.IH[OF this] sendBatch_dispatchEffect[OF st] show ?case
    by (rule dispatchEffect_trans[rotated])
qed

lemma sendToMultipleUsers_dispatchEffect:
  "sendToMultipleUsers fcm L now us payload sid w = Some (r, w') \<Longrightarrow> dispatchEffect w w'"
  by (auto simp: sendToMultipleUsers_def split: option.splits prod.splits
      dest: sendBatches_dispatchEffect)

lemma sendToMultipleUsers_returns:
  "0 < L \<Longrightarrow> \<exists>r w'. sendToMultipleUsers fcm L now us payload sid w = Some (r, w')"
  by (auto simp: sendToMultipleUsers_def totalBatches_def split: prod.splits)

lemma sendDailyNotifications_dispatchEffect:
  "sendDailyNotifications fcm L now t sid payload w = Some (r, w') \<Longrightarrow> dispatchEffect w w'"
  by (auto simp: sendDailyNotifications_def Let_def dispatchEffect_refl
      split: if_splits dest: sendToMultipleUsers_dispatchEffect)

lemma sendDailyNotifications_returns:
  "0 < L \<Longrightarrow> \<exists>r w'. sendDailyNotifications fcm L now t sid payload w = Some (r, w')"
  using sendToMultipleUsers_returns by (auto simp: sendDailyNotifications_def Let_def)

lemma sameSelection_refl: "sameSelection s s"
  by (simp add: sameSelection_def)

lemma sameSelection_trans: "sameSelection a b \<Longrightarrow> sameSelection b c \<Longrightarrow> sameSelection a c"
  by (auto simp: sameSelection_def)

lemma sameQuestion_refl: "sameQuestion q q"
  by (simp add: sameQuestion_def)

lemma sameQuestion_trans: "sameQuestion a b \<Longrightarrow> sameQuestion b c \<Longrightarrow> sameQuestion a c"
  by (auto simp: sameQuestion_def)

lemma list_all2_sameSelection_refl: "list_all2 sameSelection xs xs"
  by (simp add: list_all2_refl sameSelection_refl)

lemma list_all2_sameQuestion_refl: "list_all2 sameQuestion xs xs"
  by (simp add: list_all2_refl sameQuestion_refl)

lemma flowEffect_refl: "flowEffect w w"
  unfolding flowEffect_def
  using list_all2_sameSelection_refl[of "selections w"] list_all2_sameQuestion_refl
  by (auto intro: exI[of _ "selections w"])

lemma kept_trans:
  assumes "ys = kept @ added" "list_all2 sameSelection xs kept"
    "zs = kept' @ added'" "list_all2 sameSelection ys kept'"
  shows "\<exists>k a. zs = k @ a \<and> list_all2 sameSelection xs k"
proof -
  from assms(1,4) obtain k1 k2 where k: "kept' = k1 @ k2" "list_all2 sameSelection kept k1"
    by (auto simp: list_all2_append1)
  have "list_all2 sameSelection xs k1"
    using list_all2_trans[of sameSelection sameSelection sameSelection xs kept k1]
      sameSelection_trans assms(2) k(2) by blast
  with assms(3) k(1) show ?thesis by auto
qed

lemma flowEffect_trans:
  assumes "flowEffect w w1" "flowEffect w1 w2"
  shows "flowEffect w w2"
proof -
  have q: "list_all2 sameQuestion (questions w) (questions w2)"
    using list_all2_trans[of sameQuestion sameQuestion sameQuestion
        "questions w" "questions w1" "questions w2"] sameQuestion_trans assms
    unfolding flowEffect_def by blast
  have s: "\<exists>k a. selections w2 = k @ a \<and> list_all2 sameSelection (selections w) k"
    using assms kept_trans unfolding flowEffect_def by blast
  have l: "\<exists>rows. logs w2 = logs w @ rows
         \<and> (\<forall>row \<in> set rows. log_status row = SENT \<or> log_status row = FAILED)"
    using assms unfolding flowEffect_def by auto
  show ?thesis using assms q s l unfolding flowEffect_def by simp
qed

lemma dispatchEffect_flowEffect: "dispatchEffect w w' \<Longrightarrow> flowEffect w w'"
  unfolding flowEffect_def dispatchEffect_def uniqueSelections_def
  using list_all2_sameSelection_refl[of "selections w"] list_all2_sameQuestion_refl[of "questions w"]
  by (auto intro: exI[of _ "selections w"])

lemma flowEffect_fields:
  assumes "topics w' = topics w" "answers w' = answers w" "sendCalls w' = sendCalls w"
    "apiCalls w' = apiCalls w" "sleeps w' = sleeps w" "users w' = users w" "logs w' = logs w"
    "list_all2 sameQuestion (questions w) (questions w')"
    "\<exists>kept added. selections w' = kept @ added \<and> list_all2 sameSelection (selections w) kept"
    "uniqueSelections w \<longrightarrow> uniqueSelections w'"
  shows "flowEffect w w'"
  using assms unfolding flowEffect_def by simp

lemma claimQuestion_flowEffect:
  assumes "claimQuestion t now w = (r, w1)"
  shows "flowEffect w w1"
proof (cases "claimCandidates t (questions w)")
  case Nil
  with assms show ?thesis by (simp add: claimQuestion_def flowEffect_refl)
next
  case (Cons c cs)
  from claimCandidates_Cons[OF Cons]
  have k: "fst c < length (questions w)" and c: "snd c = questions w ! fst c" by auto
  have w1: "w1 = w\<lparr>questions := (questions w)
                [fst c := (snd c)\<lparr>lastUsedDate := Some now, usageCount := usageCount (snd c) + 1\<rparr>]\<rparr>"
    using assms Cons by (simp add: claimQuestion_def)
  have "list_all2 sameQuestion (questions w) (questions w1)"
    unfolding w1 using k c
    by (auto simp: list_all2_conv_all_nth nth_list_update sameQuestion_def)
  then show ?thesis
    using list_all2_sameSelection_refl[of "selections w"]
    by (intro flowEffect_fields) (auto simp: w1 uniqueSelections_def intro: exI[of _ "selections w"])
qed

lemma find_None_key:
  "find (\<lambda>s. selection_date s = d \<and> selection_topicId s = t) xs = None
   \<longleftrightarrow> (d, t) \<notin> set (map selectionKey xs)"
  by (auto simp: find_None_iff selectionKey_def)

lemma upsertSelection_flowEffect: "flowEffect w (upsertSelection today t q a w)"
proof (cases "findSelection today t w")
  case None
  then have "(today, t) \<notin> set (map selectionKey (selections w))"
    by (simp add: findSelection_def find_None_key)
  then show ?thesis
    using None list_all2_sameSelection_refl[of "selections w"] list_all2_sameQuestion_refl[of "questions w"]
    by (intro flowEffect_fields) (auto simp: upsertSelection_def uniqueSelections_def selectionKey_def)
next
  case (Some s)
  then show ?thesis by (simp add: upsertSelection_def flowEffect_refl)
qed

lemma sameSelection_bump:
  "sameSelection s (s\<lparr>notificationsSent := notificationsSent s + n\<rparr>)"
  by (simp add: sameSelection_def)

lemma updateOne_counter_same:
  "list_all2 sameSelection xs
     (updateOne p (\<lambda>s. s\<lparr>notificationsSent := notificationsSent s + n\<rparr>) xs)"
  by (induction xs) (simp_all add: list_all2_sameSelection_refl sameSelection_refl sameSelection_bump)

lemma updateOne_counter_keys:
  "map selectionKey (updateOne p (\<lambda>s. s\<lparr>notificationsSent := notificationsSent s + n\<rparr>) xs)
     = map selectionKey xs"
  by (induction xs) (auto simp: selectionKey_def)

lemma updateCounter_flowEffect:
  "flowEffect w (w\<lparr>selections := updateOne p
       (\<lambda>s. s\<lparr>notificationsSent := notificationsSent s + n\<rparr>) (selections w)\<rparr>)"
  using updateOne_counter_same[of "selections w" p n] list_all2_sameQuestion_refl[of "questions w"]
  by (intro flowEffect_fields) (auto simp: uniqueSelections_def updateOne_counter_keys
      intro: exI[of _ "updateOne p (\<lambda>s. s\<lparr>notificationsSent := notificationsSent s + n\<rparr>) (selections w)"])

lemma updateOne_ident: "updateOne p (\<lambda>s. s) xs = xs"
  by (induction xs) auto

lemma notifyAndCount_flowEffect:
  assumes "notifyAndCount env i topic q sel (w, s) = Some (out, w', s')"
  shows "flowEffect w w'"
proof (cases "env_faults env i SendNotifications")
  case True
  with assms show ?thesis
    by (auto simp: notifyAndCount_def Let_def flowEffect_refl updateOne_ident
        split: if_splits)
next
  case False
  with assms obtain r w1 where
    sd: "sendDailyNotifications (env_fcm env) (env_fcmBatchLimit env) (env_now env) (topic_id topic)
           (selection_id sel) (dailyPayload topic q (selection_id sel)) w = Some (r, w1)"
    by (auto simp: notifyAndCount_def Let_def split: option.splits)
  have f1: "flowEffect w w1"
    using sendDailyNotifications_dispatchEffect[OF sd] by (rule dispatchEffect_flowEffect)
  from assms False sd have "w' = w1 \<or> flowEffect w1 w'"
    by (auto simp: notifyAndCount_def Let_def updateCounter_flowEffect split: if_splits)
  with f1 show ?thesis by (auto intro: flowEffect_trans)
qed

lemma processTopic_flowEffect:
  assumes "processTopic env today i topic (w, s) = Some (out, w', s')"
  shows "flowEffect w w'"
proof (cases "env_faults env i ClaimQuestion")
  case True
  with assms show ?thesis by (simp add: processTopic_def flowEffect_refl)
next
  case False
  obtain r w1 where cq: "claimQuestion (topic_id topic) (env_now env) w = (r, w1)"
    by (cases "claimQuestion (topic_id topic) (env_now env) w")
  have f1: "flowEffect w w1" using claimQuestion_flowEffect[OF cq] .
  show ?thesis
  proof (cases r)
    case None
    with assms False cq show ?thesis by (simp add: processTopic_def flowEffect_refl)
  next
    case (Some q)
    define a where "a = map_option answer_id (find (\<lambda>a. answer_questionId a = question_id q) (answers w1))"
    define w2 where "w2 = upsertSelection today (topic_id topic) (question_id q) a w1"
    have f2: "flowEffect w w2"
      using f1 upsertSelection_flowEffect[of w1] unfolding w2_def by (rule flowEffect_trans)
    from assms False cq Some consider "w' = w1" | "w' = w2"
      | sel s1 where "notifyAndCount env i topic q sel (w2, s1) = Some (out, w', s')"
      unfolding processTopic_def Let_def w2_def a_def
      by (auto split: if_splits option.splits)
    then show ?thesis
    proof cases
      case 1 with f1 show ?thesis by simp
    next
      case 2 with f2 show ?thesis by simp
    next
      case 3
      from f2 notifyAndCount_flowEffect[OF 3] show ?thesis by (rule flowEffect_trans)
    qed
  qed
qed

lemma processTopic_returns:
  assumes "0 < env_fcmBatchLimit env"
  shows "\<exists>out w' s'. processTopic env today i topic (w, s) = Some (out, w', s')"
proof -
  have n: "\<exists>out w' s'. notifyAndCount env i topic q sel (w2, s1) = Some (out, w', s')"
    for q sel w2 s1
    using sendDailyNotifications_returns[OF assms, of "env_fcm env" "env_now env" "topic_id topic"
        "selection_id sel" "dailyPayload topic q (selection_id sel)" w2]
    by (auto simp: notifyAndCount_def Let_def)
  show ?thesis
    unfolding processTopic_def Let_def using n
    by (auto split: prod.splits option.splits)
qed

lemma flowEffect_eligible:
  assumes "flowEffect w w'"
  shows "hasEligibleQuestion t w' = hasEligibleQuestion t w"
proof -
  have l: "list_all2 sameQuestion (questions w) (questions w')"
    using assms by (simp add: flowEffect_def)
  have "(\<exists>q \<in> set xs. eligibleQuestion t q) = (\<exists>q \<in> set ys. eligibleQuestion t q)"
    if "list_all2 sameQuestion xs ys" for xs ys
    using that by (induction rule: list_all2_induct) (auto simp: sameQuestion_def eligibleQuestion_def)
  from this[OF l] show ?thesis by (simp add: hasEligibleQuestion_def)
qed

lemma findSelection_key:
  "findSelection d t w \<noteq> None \<longleftrightarrow> (d, t) \<in> set (map selectionKey (selections w))"
  using find_None_key[of d t "selections w"] by (simp add: findSelection_def)

lemma flowEffect_findSelection:
  assumes "flowEffect w w'" "findSelection d t w \<noteq> None"
  shows "findSelection d t w' \<noteq> None"
proof -
  from assms(1) obtain kept added where k: "selections w' = kept @ added"
    "list_all2 sameSelection (selections w) kept" by (auto simp: flowEffect_def)
  have "map selectionKey xs = map selectionKey ys" if "list_all2 sameSelection xs ys" for xs ys
    using that by (induction rule: list_all2_induct) (auto simp: sameSelection_def selectionKey_def)
  from this[OF k(2)] assms(2) show ?thesis
    unfolding findSelection_key k(1) by auto
qed

lemma upsertSelection_found: "findSelection d t (upsertSelection d t q a w) \<noteq> None"
proof (cases "findSelection d t w")
  case None
  then have "upsertSelection d t q a w =
     w\<lparr>selections := selections w @
               [\<lparr>selection_id = nextId w, selection_date = d, selection_topicId = t,
                 selection_questionId = q, aiAnswerId = a, notificationsSent = 0\<rparr>],
            nextId := Suc (nextId w)\<rparr>"
    by (simp add: upsertSelection_def)
  then show ?thesis unfolding findSelection_key by (simp add: selectionKey_def)
next
  case (Some s)
  then show ?thesis by (simp add: upsertSelection_def)
qed

lemma claimQuestion_result:
  "claimQuestion t now w = (r, w1) \<Longrightarrow> (r = None) = (\<not> hasEligibleQuestion t w)"
  using claimCandidates_Nil[of t "questions w"]
  by (auto simp: claimQuestion_def hasEligibleQuestion_def split: list.splits)

lemma processTopic_cases:
  assumes "processTopic env today i topic (w, s) = Some (out, w', s')"
  obtains
    (claimFault) "env_faults env i ClaimQuestion" "out = TopicError" "w' = w"
      "s' = s\<lparr>errors := errors s + 1\<rparr>"
  | (noQuestion) w1 where "\<not> env_faults env i ClaimQuestion"
      "claimQuestion (topic_id topic) (env_now env) w = (None, w1)"
      "out = NoActiveQuestion" "w' = w" "s' = s\<lparr>errors := errors s + 1\<rparr>"
  | (laterFault) q w1 where "\<not> env_faults env i ClaimQuestion"
      "claimQuestion (topic_id topic) (env_now env) w = (Some q, w1)"
      "env_faults env i FindAnswer \<or> env_faults env i UpsertSelection \<or> env_faults env i FindSelection"
      "out = TopicError"
      "s' = s\<lparr>questionsSelected := questionsSelected s + 1, errors := errors s + 1\<rparr>"
  | (notFound) q w1 where "\<not> env_faults env i ClaimQuestion"
      "claimQuestion (topic_id topic) (env_now env) w = (Some q, w1)"
      "findSelection today (topic_id topic)
         (upsertSelection today (topic_id topic) (question_id q)
            (map_option answer_id (find (\<lambda>a. answer_questionId a = question_id q) (answers w1))) w1)
       = None"
      "out = SelectionNotFound"
  | (notify) q w1 sel where "\<not> env_faults env i ClaimQuestion" "\<not> env_faults env i FindAnswer"
      "\<not> env_faults env i UpsertSelection" "\<not> env_faults env i FindSelection"
      "claimQuestion (topic_id topic) (env_now env) w = (Some q, w1)"
      "findSelection today (topic_id topic)
         (upsertSelection today (topic_id topic) (question_id q)
            (map_option answer_id (find (\<lambda>a. answer_questionId a = question_id q) (answers w1))) w1)
       = Some sel"
      "notifyAndCount env i topic q sel
         (upsertSelection today (topic_id topic) (question_id q)
            (map_option answer_id (find (\<lambda>a. answer_questionId a = question_id q) (answers w1))) w1,
          s\<lparr>questionsSelected := questionsSelected s + 1\<rparr>) = Some (out, w', s')"
  using assms unfolding processTopic_def Let_def
  by (auto split: if_splits option.splits prod.splits)

lemma notifyAndCount_accounting:
  assumes "notifyAndCount env i topic q sel (w, s) = Some (out, w', s')"
  shows "out = (if env_faults env i UpdateCounter then TopicError else Completed)"
    and "topicsProcessed s' = topicsProcessed s + (if out = Completed then 1 else 0)"
    and "errors s' = errors s + (if env_faults env i SendNotifications then 1 else 0)
                              + (if env_faults env i UpdateCounter then 1 else 0)"
  using assms
  by (auto simp: notifyAndCount_def Let_def split: if_splits option.splits)

lemma processTopic_accounting:
  assumes "processTopic env today i topic (w, s) = Some (out, w', s')"
  shows "out = expectedOutcome env i (hasEligibleQuestion (topic_id topic) w)
    \<and> topicsProcessed s' = topicsProcessed s + (if out = Completed then 1 else 0)
    \<and> errors s' = errors s + expectedErrors env i (hasEligibleQuestion (topic_id topic) w)
    \<and> (out = Completed \<longrightarrow> findSelection today (topic_id topic) w' \<noteq> None)"
  using assms
proof (cases rule: processTopic_cases)
  case claimFault
  then show ?thesis by (simp add: expectedOutcome_def expectedErrors_def)
next
  case (noQuestion w1)
  then show ?thesis using claimQuestion_result[OF noQuestion(2)]
    by (simp add: expectedOutcome_def expectedErrors_def)
next
  case (laterFault q w1)
  then show ?thesis using claimQuestion_result[OF laterFault(2)]
    by (auto simp: expectedOutcome_def expectedErrors_def)
next
  case (notFound q w1)
  then show ?thesis using upsertSelection_found by blast
next
  case (notify q w1 sel)
  note n = notifyAndCount_accounting[OF notify(7)]
  have found: "findSelection today (topic_id topic) w' \<noteq> None"
    using flowEffect_findSelection[OF notifyAndCount_flowEffect[OF notify(7)]] notify(6) by simp
  from n found notify(1-4) claimQuestion_result[OF notify(5)] show ?thesis
    by (simp add: expectedOutcome_def expectedErrors_def)
qed

lemma topicLoop_returns:
  assumes "0 < env_fcmBatchLimit env"
  shows "\<exists>r. topicLoop env today i ts acc = Some r"
proof (induction ts arbitrary: i acc)
  case Nil
  show ?case by (rule exI[of _ acc]) simp
next
  case (Cons topic rest)
  obtain tr w s where acc: "acc = (tr, w, s)" by (rule prod_cases3)
  from processTopic_returns[OF assms, of today i topic w s]
  obtain out w' s' where "processTopic env today i topic (w, s) = Some (out, w', s')" by blast
  with Cons.IH[of "Suc i" "(tr @ [(topic_id topic, out)], w', s')"] acc show ?case by simp
qed

lemma flowEffect_expected:
  assumes "flowEffect w w1"
  shows "expectedTrace env w1 i ts = expectedTrace env w i ts"
    and "expectedErrorCount env w1 i ts = expectedErrorCount env w i ts"
  using flowEffect_eligible[OF assms]
  by (induction ts arbitrary: i) simp_all

lemma topicLoop_effect:
  assumes "topicLoop env today i ts (tr, w, s) = Some (tr', w', s')"
  shows "flowEffect w w'
    \<and> tr' = tr @ expectedTrace env w i ts
    \<and> topicsProcessed s' = topicsProcessed s
         + countOf (\<lambda>entry. snd entry = Completed) (expectedTrace env w i ts)
    \<and> errors s' = errors s + expectedErrorCount env w i ts
    \<and> (\<forall>entry \<in> set (expectedTrace env w i ts).
          snd entry = Completed \<longrightarrow> findSelection today (fst entry) w' \<noteq> None)"
  using assms
proof (induction ts arbitrary: i tr w s)
  case Nil
  then show ?case by (simp add: flowEffect_refl countOf_def)
next
  case (Cons topic rest)
  from Cons.prems obtain out w1 s1 where
    pt: "processTopic env today i topic (w, s) = Some (out, w1, s1)"
    and lp: "topicLoop env today (Suc i) rest (tr @ [(topic_id topic, out)], w1, s1) = Some (tr', w', s')"
    by (auto split: option.splits)
  note f1 = processTopic_flowEffect[OF pt]
  note a1 = processTopic_accounting[OF pt]
  note ex = flowEffect_expected[OF f1]
  from Cons.IH[OF lp] have
    f2: "flowEffect w1 w'"
    and tr': "tr' = (tr @ [(topic_id topic, out)]) @ expectedTrace env w (Suc i) rest"
    and tp: "topicsProcessed s' = topicsProcessed s1
               + countOf (\<lambda>entry. snd entry = Completed) (expectedTrace env w (Suc i) rest)"
    and er: "errors s' = errors s1 + expectedErrorCount env w (Suc i) rest"
    and fs: "\<forall>entry \<in> set (expectedTrace env w (Suc i) rest).
          snd entry = Completed \<longrightarrow> findSelection today (fst entry) w' \<noteq> None"
    unfolding ex by blast+
  have fe: "flowEffect w w'" using f1 f2 by (rule flowEffect_trans)
  have hd: "out = Completed \<longrightarrow> findSelection today (topic_id topic) w' \<noteq> None"
    using a1 flowEffect_findSelection[OF f2] by blast
  show ?case
    using fe tr' tp er fs hd a1 by (simp add: countOf_def)
qed

lemma runDailyFlow_cases:
  assumes L: "0 < env_fcmBatchLimit env"
  obtains
    (critical) "env_topicsQueryFails env" "runDailyFlow env w = Some (CriticalError, w)"
  | (noTopics) "\<not> env_topicsQueryFails env" "findActiveTopics w = []"
      "runDailyFlow env w = Some (NoActiveTopics, w)"
  | (completed) trace w' summary where "\<not> env_topicsQueryFails env" "findActiveTopics w \<noteq> []"
      "runDailyFlow env w = Some (FlowCompleted trace summary, w')"
      "topicLoop env (getTodayDate (env_now env)) 0 (findActiveTopics w)
         ([], w, \<lparr>topicsProcessed = 0, questionsSelected = 0,
                   summary_notificationsSent = 0, errors = 0\<rparr>) = Some (trace, w', summary)"
proof -
  from topicLoop_returns[OF L, of "getTodayDate (env_now env)" 0 "findActiveTopics w"
      "([], w, \<lparr>topicsProcessed = 0, questionsSelected = 0,
                   summary_notificationsSent = 0, errors = 0\<rparr>)"]
  obtain trace w' summary where
    "topicLoop env (getTodayDate (env_now env)) 0 (findActiveTopics w)
         ([], w, \<lparr>topicsProcessed = 0, questionsSelected = 0,
                   summary_notificationsSent = 0, errors = 0\<rparr>) = Some (trace, w', summary)"
    by (metis prod_cases3)
  then show ?thesis
    using that by (cases "env_topicsQueryFails env"; cases "findActiveTopics w = []")
      (auto simp: runDailyFlow_def Let_def)
qed

lemma runDailyFlow_flowEffect:
  assumes "runDailyFlow env w = Some (result, w')"
  shows "flowEffect w w'"
  using assms topicLoop_effect
  by (auto simp: runDailyFlow_def Let_def flowEffect_refl split: if_splits option.splits)

text \<open>
  Claim C8. With a positive batch limit, \<open>runDailyFlow\<close> always returns. When the initial
  query for the active topics throws, the outer \<open>catch\<close> ends the run and the store is
  untouched. Otherwise the loop visits every active topic in display order, whatever the
  persistence layer does at which step of which topic: the outcome logged for a topic depends
  only on the faults of its own iteration and on whether it has an active question, every
  exception thrown in an iteration is counted in the summary's \<open>errors\<close>, and every topic
  whose iteration completes has its selection for today.
\<close>

theorem C8_topic_isolation:
  assumes L: "0 < env_fcmBatchLimit env"
  shows "\<exists>result w'. runDailyFlow env w = Some (result, w')
     \<and> (env_topicsQueryFails env \<longrightarrow> result = CriticalError \<and> w' = w)
     \<and> (\<not> env_topicsQueryFails env \<and> findActiveTopics w = [] \<longrightarrow>
           result = NoActiveTopics \<and> w' = w)
     \<and> (\<not> env_topicsQueryFails env \<and> findActiveTopics w \<noteq> [] \<longrightarrow>
          (\<exists>summary. result = FlowCompleted (expectedTrace env w 0 (findActiveTopics w)) summary
             \<and> topicsProcessed summary =
                 countOf (\<lambda>entry. snd entry = Completed)
                   (expectedTrace env w 0 (findActiveTopics w))
             \<and> errors summary = expectedErrorCount env w 0 (findActiveTopics w)
             \<and> (\<forall>entry \<in> set (expectedTrace env w 0 (findActiveTopics w)).
                   snd entry = Completed
                   \<longrightarrow> findSelection (getTodayDate (env_now env)) (fst entry) w' \<noteq> None)))"
  using L
proof (cases rule: runDailyFlow_cases[where w = w])
  case critical
  then show ?thesis by simp
next
  case noTopics
  then show ?thesis by simp
next
  case (completed trace w' summary)
  from topicLoop_effect[OF completed(4)] completed(1,2,3) show ?thesis by simp
qed

lemma map_fst_expectedTrace: "map fst (expectedTrace env w i ts) = map topic_id ts"
  by (induction ts arbitrary: i) simp_all



lemma runDailyFlow_returns:
  assumes "0 < env_fcmBatchLimit env"
  shows "\<exists>result w'. runDailyFlow env w = Some (result, w')"
  using assms by (cases rule: runDailyFlow_cases[where w = w]) auto








section \<open>Streaks\<close>












section \<open>Answer generation\<close>

lemma isRetryableError_spec: "isRetryableError e = retryableBySpec e"
  by (auto simp: isRetryableError_def retryableBySpec_def httpStatus_def Let_def
      split: option.splits)

lemma attempt3:
  "attemptLoop api req 3 le w =
     (case api (apiCalls w) req of
        Inr response \<Rightarrow> (Inr (answerOf response), w\<lparr>apiCalls := Suc (apiCalls w)\<rparr>)
      | Inl e \<Rightarrow> (Inl (Some e), w\<lparr>apiCalls := Suc (apiCalls w)\<rparr>))"
  by (subst attemptLoop.simps) (simp add: MAX_RETRIES_def answerOf_def Let_def split: sum.splits)

lemma attempt2:
  "attemptLoop api req 2 le w =
     (case api (apiCalls w) req of
        Inr response \<Rightarrow> (Inr (answerOf response), w\<lparr>apiCalls := Suc (apiCalls w)\<rparr>)
      | Inl e \<Rightarrow>
          if \<not> isRetryableError e then (Inl (Some e), w\<lparr>apiCalls := Suc (apiCalls w)\<rparr>)
          else attemptLoop api req 3 (Some e)
                 (w\<lparr>apiCalls := Suc (apiCalls w), sleeps := sleeps w @ [2000]\<rparr>))"
  by (subst attemptLoop.simps)
     (simp add: MAX_RETRIES_def BASE_RETRY_DELAY_MS_def answerOf_def Let_def split: sum.splits)

lemma attempt1:
  "attemptLoop api req (Suc 0) le w =
     (case api (apiCalls w) req of
        Inr response \<Rightarrow> (Inr (answerOf response), w\<lparr>apiCalls := Suc (apiCalls w)\<rparr>)
      | Inl e \<Rightarrow>
          if \<not> isRetryableError e then (Inl (Some e), w\<lparr>apiCalls := Suc (apiCalls w)\<rparr>)
          else attemptLoop api req 2 (Some e)
                 (w\<lparr>apiCalls := Suc (apiCalls w), sleeps := sleeps w @ [1000]\<rparr>))"
  by (subst attemptLoop.simps)
     (simp add: MAX_RETRIES_def BASE_RETRY_DELAY_MS_def answerOf_def Let_def numeral_2_eq_2
        split: sum.splits)

lemmas attempts = attempt1 attempt2 attempt3

lemma generateAnswer_cases:
  "(\<forall>e. isRetryableError e = retryableBySpec e)
   \<and> (\<forall>r. nthOutcome api model questionText topicName difficulty w 0 = Inr r \<longrightarrow>
         generateAnswer api model questionText topicName difficulty w
           = (Inr (answerOf r), afterCalls 1 [] w))
   \<and> (\<forall>e1. nthOutcome api model questionText topicName difficulty w 0 = Inl e1
          \<and> \<not> retryableBySpec e1 \<longrightarrow>
         generateAnswer api model questionText topicName difficulty w
           = (Inl (Some e1), afterCalls 1 [] w))
   \<and> (\<forall>e1 r. nthOutcome api model questionText topicName difficulty w 0 = Inl e1
          \<and> retryableBySpec e1
          \<and> nthOutcome api model questionText topicName difficulty w 1 = Inr r \<longrightarrow>
         generateAnswer api model questionText topicName difficulty w
           = (Inr (answerOf r), afterCalls 2 [1000] w))
   \<and> (\<forall>e1 e2. nthOutcome api model questionText topicName difficulty w 0 = Inl e1
          \<and> retryableBySpec e1
          \<and> nthOutcome api model questionText topicName difficulty w 1 = Inl e2
          \<and> \<not> retryableBySpec e2 \<longrightarrow>
         generateAnswer api model questionText topicName difficulty w
           = (Inl (Some e2), afterCalls 2 [1000] w))
   \<and> (\<forall>e1 e2 r. nthOutcome api model questionText topicName difficulty w 0 = Inl e1
          \<and> retryableBySpec e1
          \<and> nthOutcome api model questionText topicName difficulty w 1 = Inl e2
          \<and> retryableBySpec e2
          \<and> nthOutcome api model questionText topicName difficulty w 2 = Inr r \<longrightarrow>
         generateAnswer api model questionText topicName difficulty w
           = (Inr (answerOf r), afterCalls 3 [1000, 2000] w))
   \<and> (\<forall>e1 e2 e3. nthOutcome api model questionText topicName difficulty w 0 = Inl e1
          \<and> retryableBySpec e1
          \<and> nthOutcome api model questionText topicName difficulty w 1 = Inl e2
          \<and> retryableBySpec e2
          \<and> nthOutcome api model questionText topicName difficulty w 2 = Inl e3 \<longrightarrow>
         generateAnswer api model questionText topicName difficulty w
           = (Inl (Some e3), afterCalls 3 [1000, 2000] w))"
  unfolding generateAnswer_def nthOutcome_def chatRequest_def afterCalls_def
  by (simp add: attempts isRetryableError_spec)

lemma generateAnswer_world:
  "\<exists>n waits. snd (generateAnswer api model questionText topicName difficulty w) = afterCalls n waits w
     \<and> 1 \<le> n \<and> n \<le> 3
     \<and> ((\<exists>r. nthOutcome api model questionText topicName difficulty w 0 = Inr r) \<longrightarrow> n = 1)"
proof -
  let ?o = "nthOutcome api model questionText topicName difficulty w"
  note C5 = generateAnswer_cases[of api model questionText topicName difficulty w]
  consider (a) r where "?o 0 = Inr r"
    | (b) e1 where "?o 0 = Inl e1" "\<not> retryableBySpec e1"
    | (c) e1 r where "?o 0 = Inl e1" "retryableBySpec e1" "?o 1 = Inr r"
    | (d) e1 e2 where "?o 0 = Inl e1" "retryableBySpec e1" "?o 1 = Inl e2" "\<not> retryableBySpec e2"
    | (e) e1 e2 r where "?o 0 = Inl e1" "retryableBySpec e1" "?o 1 = Inl e2" "retryableBySpec e2"
        "?o 2 = Inr r"
    | (f) e1 e2 e3 where "?o 0 = Inl e1" "retryableBySpec e1" "?o 1 = Inl e2" "retryableBySpec e2"
        "?o 2 = Inl e3"
    by (metis sum.exhaust)
  then show ?thesis
  proof cases
    case a then show ?thesis using C5 by (intro exI[of _ 1] exI[of _ "[]"]) simp
  next
    case b then show ?thesis using C5 by (intro exI[of _ 1] exI[of _ "[]"]) simp
  next
    case c then show ?thesis using C5 by (intro exI[of _ 2] exI[of _ "[1000]"]) simp
  next
    case d then show ?thesis using C5 by (intro exI[of _ 2] exI[of _ "[1000]"]) simp
  next
    case e then show ?thesis using C5 by (intro exI[of _ 3] exI[of _ "[1000, 2000]"]) simp
  next
    case f then show ?thesis using C5 by (intro exI[of _ 3] exI[of _ "[1000, 2000]"]) simp
  qed
qed

text \<open>
  Claim C5. \<open>isRetryableError\<close> holds exactly for an HTTP status (\<open>status\<close>, else
  \<open>statusCode\<close>) of 429 or at least 500, and for the codes \<open>ECONNRESET\<close>, \<open>ETIMEDOUT\<close>,
  \<open>ENOTFOUND\<close> and \<open>EAI_AGAIN\<close>. \<open>generateAnswer\<close> makes between one and three calls.
  It returns the first successful completion; an error that is not retryable is thrown at
  once, without a pause; after a retryable error it waits 1000 ms before the second attempt
  and 2000 ms before the third; the error of a failed third attempt is thrown. In particular
  two rate-limit errors followed by a success give three calls, the two waits, and the
  successful text.
\<close>

theorem C5_generateAnswer_retry:
  "(\<forall>e. isRetryableError e = retryableBySpec e)
   \<and> (\<exists>n waits. snd (generateAnswer api model questionText topicName difficulty w)
                    = afterCalls n waits w \<and> 1 \<le> n \<and> n \<le> 3)
   \<and> (\<forall>r. nthOutcome api model questionText topicName difficulty w 0 = Inr r \<longrightarrow>
         generateAnswer api model questionText topicName difficulty w
           = (Inr (answerOf r), afterCalls 1 [] w))
   \<and> (\<forall>e1. nthOutcome api model questionText topicName difficulty w 0 = Inl e1
          \<and> \<not> retryableBySpec e1 \<longrightarrow>
         generateAnswer api model questionText topicName difficulty w
           = (Inl (Some e1), afterCalls 1 [] w))
   \<and> (\<forall>e1 r. nthOutcome api model questionText topicName difficulty w 0 = Inl e1
          \<and> retryableBySpec e1
          \<and> nthOutcome api model questionText topicName difficulty w 1 = Inr r \<longrightarrow>
         generateAnswer api model questionText topicName difficulty w
           = (Inr (answerOf r), afterCalls 2 [1000] w))
   \<and> (\<forall>e1 e2. nthOutcome api model questionText topicName difficulty w 0 = Inl e1
          \<and> retryableBySpec e1
          \<and> nthOutcome api model questionText topicName difficulty w 1 = Inl e2
          \<and> \<not> retryableBySpec e2 \<longrightarrow>
         generateAnswer api model questionText topicName difficulty w
           = (Inl (Some e2), afterCalls 2 [1000] w))
   \<and> (\<forall>e1 e2 r. nthOutcome api model questionText topicName difficulty w 0 = Inl e1
          \<and> retryableBySpec e1
          \<and> nthOutcome api model questionText topicName difficulty w 1 = Inl e2
          \<and> retryableBySpec e2
          \<and> nthOutcome api model questionText topicName difficulty w 2 = Inr r \<longrightarrow>
         generateAnswer api model questionText topicName difficulty w
           = (Inr (answerOf r), afterCalls 3 [1000, 2000] w))
   \<and> (\<forall>e1 e2 e3. nthOutcome api model questionText topicName difficulty w 0 = Inl e1
          \<and> retryableBySpec e1
          \<and> nthOutcome api model questionText topicName difficulty w 1 = Inl e2
          \<and> retryableBySpec e2
          \<and> nthOutcome api model questionText topicName difficulty w 2 = Inl e3 \<longrightarrow>
         generateAnswer api model questionText topicName difficulty w
           = (Inl (Some e3), afterCalls 3 [1000, 2000] w))"
  using generateAnswer_cases[of api model questionText topicName difficulty w]
    generateAnswer_world[of api model questionText topicName difficulty w]
  by blast

lemma afterCalls_fields:
  "answers (afterCalls n waits w) = answers w" "questions (afterCalls n waits w) = questions w"
  "topics (afterCalls n waits w) = topics w" "nextId (afterCalls n waits w) = nextId w"
  "logs (afterCalls n waits w) = logs w" "apiCalls (afterCalls n waits w) = apiCalls w + n"
  "users (afterCalls n waits w) = users w" "selections (afterCalls n waits w) = selections w"
  by (simp_all add: afterCalls_def)






lemma generateForQuestion_hit:
  "freshAnswer qid w = Some existing \<Longrightarrow> generateForQuestion api cfg now qid w = (Inr existing, w)"
  by (simp add: generateForQuestion_def freshAnswer_def)

lemma generateForQuestion_missing:
  "freshAnswer qid w = None \<Longrightarrow> findQuestion qid w = None \<Longrightarrow>
     generateForQuestion api cfg now qid w = (Inl (NotFoundException (TheQuestion qid)), w)"
  by (simp add: generateForQuestion_def freshAnswer_def findQuestion_def)





section \<open>Claims, errors and the notification log\<close>

lemma logsExtended_refl: "logsExtended w w"
  by (simp add: logsExtended_def onlySentOrFailed_def)

lemma logsExtended_same: "logs w' = logs w \<Longrightarrow> logsExtended w w'"
  by (simp add: logsExtended_def onlySentOrFailed_def)

lemma logsExtended_trans: "logsExtended w w1 \<Longrightarrow> logsExtended w1 w2 \<Longrightarrow> logsExtended w w2"
  by (auto simp: logsExtended_def onlySentOrFailed_def)

lemma processTopic_noQuestion:
  assumes "\<not> hasEligibleQuestion (topic_id topic) w" "\<not> env_faults env i ClaimQuestion"
  shows "processTopic env today i topic (w, s) =
           Some (NoActiveQuestion, w, s\<lparr>errors := errors s + 1\<rparr>)"
  using assms claimQuestion_none[of w "topic_id topic" "env_now env"]
  by (simp add: processTopic_def hasEligibleQuestion_def)

text \<open>
  Claim C3. For a topic with an active question, the claim returns an active question of the
  topic whose \<open>lastUsedDate\<close> is smallest, a missing date being before every date, and in
  the store exactly that document gets \<open>lastUsedDate = now\<close> and its \<open>usageCount\<close>
  incremented by one. With the two questions A (never used, count 0) and B (used on some
  day), A is claimed and its count becomes 1. For a topic without an active question the
  claim changes nothing, the iteration ends with the error count of the summary incremented,
  and the loop goes on with the next topic.
\<close>

theorem C3_claimQuestion:
  "(hasEligibleQuestion t w \<longrightarrow>
      (\<exists>k < length (questions w).
           eligibleQuestion t (questions w ! k)
         \<and> (\<forall>q' \<in> set (questions w). eligibleQuestion t q'
               \<longrightarrow> lastUsedDate (questions w ! k) \<le> lastUsedDate q')
         \<and> claimQuestion t now w =
             (Some (questions w ! k),
              w\<lparr>questions := (questions w)
                   [k := (questions w ! k)\<lparr>lastUsedDate := Some now,
                                           usageCount := usageCount (questions w ! k) + 1\<rparr>]\<rparr>)))
 \<and> ((questions w2 = [A, B] \<or> questions w2 = [B, A]) \<and> eligibleQuestion t2 A
        \<and> eligibleQuestion t2 B \<and> lastUsedDate A = None \<and> lastUsedDate B = Some d
        \<and> usageCount A = 0 \<longrightarrow>
      (\<exists>w'. claimQuestion t2 now w2 = (Some A, w')
         \<and> set (questions w') = {A\<lparr>lastUsedDate := Some now, usageCount := 1\<rparr>, B}))
 \<and> (\<not> hasEligibleQuestion (topic_id topic) w3 \<and> \<not> env_faults env i ClaimQuestion \<longrightarrow>
      claimQuestion (topic_id topic) (env_now env) w3 = (None, w3)
    \<and> processTopic env today i topic (w3, s) =
         Some (NoActiveQuestion, w3, s\<lparr>errors := errors s + 1\<rparr>)
    \<and> topicLoop env today i (topic # rest) (tr, w3, s) =
         topicLoop env today (Suc i) rest
           (tr @ [(topic_id topic, NoActiveQuestion)], w3, s\<lparr>errors := errors s + 1\<rparr>))"
proof (intro conjI impI)
  assume "hasEligibleQuestion t w"
  then show "\<exists>k < length (questions w).
           eligibleQuestion t (questions w ! k)
         \<and> (\<forall>q' \<in> set (questions w). eligibleQuestion t q'
               \<longrightarrow> lastUsedDate (questions w ! k) \<le> lastUsedDate q')
         \<and> claimQuestion t now w =
             (Some (questions w ! k),
              w\<lparr>questions := (questions w)
                   [k := (questions w ! k)\<lparr>lastUsedDate := Some now,
                                           usageCount := usageCount (questions w ! k) + 1\<rparr>]\<rparr>)"
    using claimQuestion_some[of w t now] by (simp add: hasEligibleQuestion_def claimed_def)
next
  assume "(questions w2 = [A, B] \<or> questions w2 = [B, A]) \<and> eligibleQuestion t2 A
        \<and> eligibleQuestion t2 B \<and> lastUsedDate A = None \<and> lastUsedDate B = Some d
        \<and> usageCount A = 0"
  then show "\<exists>w'. claimQuestion t2 now w2 = (Some A, w')
         \<and> set (questions w') = {A\<lparr>lastUsedDate := Some now, usageCount := 1\<rparr>, B}"
    using claimQuestion_two_questions[of w2 A B t2 d now] by simp
next
  assume h: "\<not> hasEligibleQuestion (topic_id topic) w3 \<and> \<not> env_faults env i ClaimQuestion"
  then show "claimQuestion (topic_id topic) (env_now env) w3 = (None, w3)"
    using claimQuestion_none[of w3 "topic_id topic" "env_now env"]
    by (simp add: hasEligibleQuestion_def)
  from h show pt: "processTopic env today i topic (w3, s) =
         Some (NoActiveQuestion, w3, s\<lparr>errors := errors s + 1\<rparr>)"
    by (simp add: processTopic_noQuestion)
  show "topicLoop env today i (topic # rest) (tr, w3, s) =
         topicLoop env today (Suc i) rest
           (tr @ [(topic_id topic, NoActiveQuestion)], w3, s\<lparr>errors := errors s + 1\<rparr>)"
    by (simp add: pt)
qed

lemma sendToUser_logs:
  "sendToUser fcm now userId token payload sid w = (entry, w') \<Longrightarrow>
     logs w' = logs w @ [entry]
   \<and> log_userId entry = userId
   \<and> log_status entry = (case send fcm (sendCalls w) token payload of
                            Inr _ \<Rightarrow> SENT | Inl _ \<Rightarrow> FAILED)"
  by (auto simp: sendToUser_def Let_def markTokenInvalid_def split: sum.splits option.splits if_splits)

lemma generateForQuestion_logs: "logs (snd (generateForQuestion api cfg now qid w)) = logs w"
proof (cases "freshAnswer qid w")
  case (Some existing)
  then show ?thesis by (simp add: generateForQuestion_hit)
next
  case None
  show ?thesis
  proof (cases "findQuestion qid w")
    case miss: None
    with None show ?thesis by (simp add: generateForQuestion_missing)
  next
    case (Some question)
    define topicName where "topicName =
       (case find (\<lambda>t. topic_id t = question_topicId question) (topics w) of
          None \<Rightarrow> ''General'' | Some topic \<Rightarrow> topic_name topic)"
    obtain r w0 where ga: "generateAnswer api (config_openaiModel cfg) (question_text question)
                            topicName (question_difficulty question) w = (r, w0)"
      by (cases "generateAnswer api (config_openaiModel cfg) (question_text question)
                            topicName (question_difficulty question) w")
    have l0: "logs w0 = logs w"
      using generateAnswer_world[of api "config_openaiModel cfg" "question_text question" topicName
          "question_difficulty question" w] ga by (auto simp: afterCalls_fields)
    have up: "logs (snd (upsertAnswer qid b now m t w0)) = logs w0" for b m t
      by (simp add: upsertAnswer_def Let_def split: option.splits)
    have "generateForQuestion api cfg now qid w =
            (case r of
               Inl error \<Rightarrow> (Inl (GenerationError error), w0)
             | Inr result \<Rightarrow>
                 (case upsertAnswer qid (result_answer result) now (config_OPENAI_MODEL cfg)
                         (result_tokenCount result) w0 of
                    (saved, w2) \<Rightarrow> (Inr saved, w2)))"
      using None Some ga
      by (simp add: generateForQuestion_def freshAnswer_def findQuestion_def topicName_def)
    then show ?thesis
      using l0 up by (cases r) (auto split: prod.splits, metis snd_conv)
  qed
qed

lemma exec_logs:
  assumes "exec sys now op w = Some w'"
  shows "logsExtended w w'"
proof (cases op)
  case (SendToUser userId token payload sid)
  obtain entry w1 where s: "sendToUser (system_fcm sys) now userId token payload sid w = (entry, w1)"
    by (cases "sendToUser (system_fcm sys) now userId token payload sid w")
  from sendToUser_logs[OF s] assms SendToUser s show ?thesis
    by (auto simp: logsExtended_def onlySentOrFailed_def split: sum.splits)
next
  case (SendToMultipleUsers us payload sid)
  with assms show ?thesis
    by (auto simp: logsExtended_def onlySentOrFailed_def dispatchEffect_def
        dest!: sendToMultipleUsers_dispatchEffect)
next
  case (SendDailyNotifications t sid payload)
  with assms show ?thesis
    by (auto simp: logsExtended_def onlySentOrFailed_def dispatchEffect_def
        dest!: sendDailyNotifications_dispatchEffect)
next
  case CleanupInvalidTokens
  with assms show ?thesis by (auto simp: cleanupInvalidTokens_def intro: logsExtended_same)
next
  case (RunDailyFlow fails faults)
  with assms show ?thesis
    by (auto simp: logsExtended_def onlySentOrFailed_def flowEffect_def
        dest!: runDailyFlow_flowEffect)
next
  case (MarkAsRead userId sid)
  with assms show ?thesis
    by (auto simp: markAsRead_def Let_def intro: logsExtended_same logsExtended_refl
        split: sum.splits option.splits if_splits)
next
  case ResetStaleStreaks
  with assms show ?thesis by (auto simp: resetStaleStreaks_def Let_def intro: logsExtended_same)
next
  case (GenerateForQuestion qid)
  with assms show ?thesis by (auto simp: generateForQuestion_logs intro: logsExtended_same)
next
  case (MarkAsStale qid)
  with assms show ?thesis by (auto simp: markAsStale_def intro: logsExtended_same)
qed

lemma execAll_logs:
  "execAll sys steps w = Some w' \<Longrightarrow> logsExtended w w'"
proof (induction steps arbitrary: w)
  case Nil
  then show ?case by (simp add: logsExtended_refl)
next
  case (Cons step rest)
  then obtain w1 where e: "exec sys (fst step) (snd step) w = Some w1"
    and r: "execAll sys rest w1 = Some w'" by (auto split: option.splits)
  from exec_logs[OF e] Cons.IH[OF r] show ?case by (rule logsExtended_trans)
qed

text \<open>
  Claim C9. Whatever sequence of operations the system runs, the notification log only
  grows: the rows present before are still there, unchanged and in place, and every row
  added has status \<open>sent\<close> or \<open>failed\<close>, never \<open>pending\<close> or \<open>delivered\<close>. \<open>sendToUser\<close> adds
  exactly the row it returns, \<open>sent\<close> when the gateway accepted the message and \<open>failed\<close>
  when it threw; \<open>sendToMultipleUsers\<close> adds \<open>sent\<close> and \<open>failed\<close> rows only.
\<close>

theorem C9_log_states:
  "(\<forall>w'. execAll sys steps w = Some w' \<longrightarrow>
       (\<exists>rows. logs w' = logs w @ rows
          \<and> (\<forall>row \<in> set rows. log_status row = SENT \<or> log_status row = FAILED)))
 \<and> (\<forall>entry w'. sendToUser fcm now userId token payload sid w = (entry, w') \<longrightarrow>
       logs w' = logs w @ [entry]
     \<and> log_status entry = (case send fcm (sendCalls w) token payload of
                              Inr messageId \<Rightarrow> SENT | Inl err \<Rightarrow> FAILED))
 \<and> (\<forall>totals w'. sendToMultipleUsers fcm L now us payload sid2 w = Some (totals, w') \<longrightarrow>
       (\<exists>rows. logs w' = logs w @ rows
          \<and> (\<forall>row \<in> set rows. log_status row = SENT \<or> log_status row = FAILED)))"
proof (intro conjI allI impI)
  fix w' assume "execAll sys steps w = Some w'"
  from execAll_logs[OF this]
  show "\<exists>rows. logs w' = logs w @ rows
          \<and> (\<forall>row \<in> set rows. log_status row = SENT \<or> log_status row = FAILED)"
    by (simp add: logsExtended_def onlySentOrFailed_def)
next
  fix entry w' assume s: "sendToUser fcm now userId token payload sid w = (entry, w')"
  from sendToUser_logs[OF s] show "logs w' = logs w @ [entry]" by simp
  from sendToUser_logs[OF s]
  show "log_status entry = (case send fcm (sendCalls w) token payload of
                              Inr messageId \<Rightarrow> SENT | Inl err \<Rightarrow> FAILED)" by simp
next
  fix totals w' assume "sendToMultipleUsers fcm L now us payload sid2 w = Some (totals, w')"
  from sendToMultipleUsers_dispatchEffect[OF this]
  show "\<exists>rows. logs w' = logs w @ rows
          \<and> (\<forall>row \<in> set rows. log_status row = SENT \<or> log_status row = FAILED)"
    by (simp add: dispatchEffect_def)
qed

section \<open>Worked examples\<close>

lemma exampleTopics: "findActiveTopics exampleCatalog = [topicJavaScript, topicPython, topicRust]"
  by (simp add: findActiveTopics_def exampleCatalog_def topicJavaScript_def topicPython_def
      topicRust_def)

lemma exampleEligible:
  "hasEligibleQuestion 201 exampleCatalog" "hasEligibleQuestion 202 exampleCatalog"
  "\<not> hasEligibleQuestion 203 exampleCatalog"
  by (simp_all add: hasEligibleQuestion_def eligibleQuestion_def exampleCatalog_def
      questionA_def questionB_def questionP_def)

theorem C8_topic_isolation_witness:
  "0 < env_fcmBatchLimit exampleEnv
 \<and> (\<exists>summary w'. runDailyFlow exampleEnv exampleCatalog
        = Some (FlowCompleted [(201, Completed), (202, TopicError), (203, NoActiveQuestion)] summary, w')
      \<and> topicsProcessed summary = 1 \<and> errors summary = 2
      \<and> findSelection (getTodayDate exampleNow) 201 w' \<noteq> None)
 \<and> runDailyFlow (exampleEnv\<lparr>env_topicsQueryFails := True\<rparr>) exampleCatalog
      = Some (CriticalError, exampleCatalog)"
proof -
  have L: "0 < env_fcmBatchLimit exampleEnv" by (simp add: exampleEnv_def)
  have L': "0 < env_fcmBatchLimit (exampleEnv\<lparr>env_topicsQueryFails := True\<rparr>)"
    by (simp add: exampleEnv_def)
  have tr: "expectedTrace exampleEnv exampleCatalog 0 [topicJavaScript, topicPython, topicRust]
        = [(201, Completed), (202, TopicError), (203, NoActiveQuestion)]"
    by (simp add: exampleEligible expectedOutcome_def exampleEnv_def topicJavaScript_def
        topicPython_def topicRust_def)
  have er: "expectedErrorCount exampleEnv exampleCatalog 0 [topicJavaScript, topicPython, topicRust] = 2"
    by (simp add: exampleEligible expectedErrors_def exampleEnv_def topicJavaScript_def
        topicPython_def topicRust_def)
  have nf: "\<not> env_topicsQueryFails exampleEnv" by (simp add: exampleEnv_def)
  from C8_topic_isolation[OF L, of exampleCatalog] nf
  have a: "\<exists>summary w'. runDailyFlow exampleEnv exampleCatalog
        = Some (FlowCompleted [(201, Completed), (202, TopicError), (203, NoActiveQuestion)] summary, w')
      \<and> topicsProcessed summary = 1 \<and> errors summary = 2
      \<and> findSelection (getTodayDate exampleNow) 201 w' \<noteq> None"
    unfolding exampleTopics tr er
    by (auto simp: countOf_def exampleEnv_def)
  from C8_topic_isolation[OF L', of exampleCatalog]
  have b: "runDailyFlow (exampleEnv\<lparr>env_topicsQueryFails := True\<rparr>) exampleCatalog
      = Some (CriticalError, exampleCatalog)"
    by auto
  from L a b show ?thesis by blast
qed






theorem C3_claimQuestion_witness:
  "hasEligibleQuestion 201 exampleCatalog
 \<and> (\<exists>k < length (questions exampleCatalog).
         eligibleQuestion 201 (questions exampleCatalog ! k)
       \<and> (\<forall>q' \<in> set (questions exampleCatalog). eligibleQuestion 201 q'
             \<longrightarrow> lastUsedDate (questions exampleCatalog ! k) \<le> lastUsedDate q')
       \<and> claimQuestion 201 exampleNow exampleCatalog =
           (Some (questions exampleCatalog ! k),
            exampleCatalog\<lparr>questions := (questions exampleCatalog)
                 [k := (questions exampleCatalog ! k)\<lparr>lastUsedDate := Some exampleNow,
                         usageCount := usageCount (questions exampleCatalog ! k) + 1\<rparr>]\<rparr>))
 \<and> claimQuestion 201 exampleNow exampleCatalog
      = (Some questionA,
         exampleCatalog\<lparr>questions :=
           [questionB, questionA\<lparr>lastUsedDate := Some exampleNow, usageCount := 1\<rparr>,
            questionP]\<rparr>)
 \<and> (\<exists>w'. claimQuestion 201 exampleNow (exampleCatalog\<lparr>questions := [questionA, questionB]\<rparr>)
             = (Some questionA, w')
        \<and> set (questions w') = {questionA\<lparr>lastUsedDate := Some exampleNow, usageCount := 1\<rparr>,
                                  questionB})
 \<and> \<not> hasEligibleQuestion (topic_id topicRust) exampleCatalog
 \<and> \<not> env_faults exampleEnv 2 ClaimQuestion
 \<and> processTopic exampleEnv 20000 2 topicRust
       (exampleCatalog, \<lparr>topicsProcessed = 1, questionsSelected = 2,
                          summary_notificationsSent = 1, errors = 1\<rparr>)
      = Some (NoActiveQuestion, exampleCatalog,
              \<lparr>topicsProcessed = 1, questionsSelected = 2,
               summary_notificationsSent = 1, errors = 1\<rparr>\<lparr>errors := 1 + 1\<rparr>)"
proof -
  have e: "hasEligibleQuestion 201 exampleCatalog" by (rule exampleEligible)
  have n: "\<not> hasEligibleQuestion (topic_id topicRust) exampleCatalog"
    by (simp add: topicRust_def exampleEligible)
  have f: "\<not> env_faults exampleEnv 2 ClaimQuestion" by (simp add: exampleEnv_def)
  have ab: "questions (exampleCatalog\<lparr>questions := [questionA, questionB]\<rparr>) = [questionA, questionB]
       \<or> questions (exampleCatalog\<lparr>questions := [questionA, questionB]\<rparr>) = [questionB, questionA]"
    "eligibleQuestion 201 questionA" "eligibleQuestion 201 questionB"
    "lastUsedDate questionA = None" "lastUsedDate questionB = Some (19997 * 86400000)"
    "usageCount questionA = 0"
    by (simp_all add: eligibleQuestion_def questionA_def questionB_def)
  have direct: "claimQuestion 201 exampleNow exampleCatalog
      = (Some questionA,
         exampleCatalog\<lparr>questions :=
           [questionB, questionA\<lparr>lastUsedDate := Some exampleNow, usageCount := 1\<rparr>,
            questionP]\<rparr>)"
    by (simp add: claimQuestion_def claimCandidates_def exampleCatalog_def questionA_def
        questionB_def questionP_def)
  note inst = C3_claimQuestion[of 201 exampleCatalog exampleNow
      "exampleCatalog\<lparr>questions := [questionA, questionB]\<rparr>" questionA questionB 201
      "19997 * 86400000" topicRust exampleCatalog exampleEnv 2 20000
      "\<lparr>topicsProcessed = 1, questionsSelected = 2, summary_notificationsSent = 1, errors = 1\<rparr>"]
  from inst e have 1: "\<exists>k < length (questions exampleCatalog).
         eligibleQuestion 201 (questions exampleCatalog ! k)
       \<and> (\<forall>q' \<in> set (questions exampleCatalog). eligibleQuestion 201 q'
             \<longrightarrow> lastUsedDate (questions exampleCatalog ! k) \<le> lastUsedDate q')
       \<and> claimQuestion 201 exampleNow exampleCatalog =
           (Some (questions exampleCatalog ! k),
            exampleCatalog\<lparr>questions := (questions exampleCatalog)
                 [k := (questions exampleCatalog ! k)\<lparr>lastUsedDate := Some exampleNow,
                         usageCount := usageCount (questions exampleCatalog ! k) + 1\<rparr>]\<rparr>)"
    by blast
  from inst ab have 2: "\<exists>w'. claimQuestion 201 exampleNow
               (exampleCatalog\<lparr>questions := [questionA, questionB]\<rparr>) = (Some questionA, w')
        \<and> set (questions w') = {questionA\<lparr>lastUsedDate := Some exampleNow, usageCount := 1\<rparr>,
                                  questionB}"
    by blast
  from inst n f have 3: "processTopic exampleEnv 20000 2 topicRust
       (exampleCatalog, \<lparr>topicsProcessed = 1, questionsSelected = 2,
                          summary_notificationsSent = 1, errors = 1\<rparr>)
      = Some (NoActiveQuestion, exampleCatalog,
              \<lparr>topicsProcessed = 1, questionsSelected = 2,
               summary_notificationsSent = 1, errors = 1\<rparr>\<lparr>errors := 1 + 1\<rparr>)"
    by simp
  from e 1 direct 2 n f 3 show ?thesis by blast
qed




lemma exampleRetryable:
  "retryableBySpec limitError" "\<not> retryableBySpec rejectError" "retryableBySpec timeoutError"
  by (simp_all add: retryableBySpec_def httpStatus_def limitError_def rejectError_def
      timeoutError_def)

theorem C5_generateAnswer_retry_witness:
  "generateAnswer exampleApi ''gpt-4'' ''What is hoisting?'' ''JavaScript'' ''beginner''
     exampleCatalog
   = (Inr \<lparr>result_answer = ''Hoisting moves declarations up.'', result_tokenCount = 57\<rparr>,
      exampleCatalog\<lparr>apiCalls := 3, sleeps := [1000, 2000]\<rparr>)
 \<and> generateAnswer exampleRejectingApi ''gpt-4'' ''What is hoisting?'' ''JavaScript'' ''beginner''
     exampleCatalog
   = (Inl (Some rejectError), exampleCatalog\<lparr>apiCalls := 1, sleeps := []\<rparr>)
 \<and> generateAnswer exampleDownApi ''gpt-4'' ''What is hoisting?'' ''JavaScript'' ''beginner''
     exampleCatalog
   = (Inl (Some timeoutError), exampleCatalog\<lparr>apiCalls := 3, sleeps := [1000, 2000]\<rparr>)"
proof -
  have c: "apiCalls exampleCatalog = 0" "sleeps exampleCatalog = []"
    by (simp_all add: exampleCatalog_def)
  have o1: "nthOutcome exampleApi ''gpt-4'' ''What is hoisting?'' ''JavaScript'' ''beginner''
              exampleCatalog 0 = Inl limitError"
    "nthOutcome exampleApi ''gpt-4'' ''What is hoisting?'' ''JavaScript'' ''beginner''
              exampleCatalog 1 = Inl limitError"
    "nthOutcome exampleApi ''gpt-4'' ''What is hoisting?'' ''JavaScript'' ''beginner''
              exampleCatalog 2 = Inr \<lparr>completion_content = Some ''Hoisting moves declarations up.'',
                                        completion_totalTokens = Some 57\<rparr>"
    by (simp_all add: nthOutcome_def exampleApi_def c limitError_def)
  have o2: "nthOutcome exampleRejectingApi ''gpt-4'' ''What is hoisting?'' ''JavaScript''
              ''beginner'' exampleCatalog 0 = Inl rejectError"
    by (simp add: nthOutcome_def exampleRejectingApi_def rejectError_def)
  have o3: "nthOutcome exampleDownApi ''gpt-4'' ''What is hoisting?'' ''JavaScript''
              ''beginner'' exampleCatalog k = Inl timeoutError" for k
    by (simp add: nthOutcome_def exampleDownApi_def timeoutError_def)
  from C5_generateAnswer_retry[of exampleApi "''gpt-4''" "''What is hoisting?''" "''JavaScript''"
      "''beginner''" exampleCatalog] o1 exampleRetryable
  have 1: "generateAnswer exampleApi ''gpt-4'' ''What is hoisting?'' ''JavaScript'' ''beginner''
     exampleCatalog
   = (Inr \<lparr>result_answer = ''Hoisting moves declarations up.'', result_tokenCount = 57\<rparr>,
      exampleCatalog\<lparr>apiCalls := 3, sleeps := [1000, 2000]\<rparr>)"
    by (simp add: answerOf_def orElse_def afterCalls_def c)
  from C5_generateAnswer_retry[of exampleRejectingApi "''gpt-4''" "''What is hoisting?''"
      "''JavaScript''" "''beginner''" exampleCatalog] o2 exampleRetryable
  have 2: "generateAnswer exampleRejectingApi ''gpt-4'' ''What is hoisting?'' ''JavaScript''
     ''beginner'' exampleCatalog
   = (Inl (Some rejectError), exampleCatalog\<lparr>apiCalls := 1, sleeps := []\<rparr>)"
    by (simp add: afterCalls_def c)
  from C5_generateAnswer_retry[of exampleDownApi "''gpt-4''" "''What is hoisting?''"
      "''JavaScript''" "''beginner''" exampleCatalog] o3 exampleRetryable
  have 3: "generateAnswer exampleDownApi ''gpt-4'' ''What is hoisting?'' ''JavaScript''
     ''beginner'' exampleCatalog
   = (Inl (Some timeoutError), exampleCatalog\<lparr>apiCalls := 3, sleeps := [1000, 2000]\<rparr>)"
    by (simp add: afterCalls_def c)
  from 1 2 3 show ?thesis by blast
qed






lemma exec_returns:
  assumes "0 < system_fcmBatchLimit sys"
  shows "\<exists>w'. exec sys now op w = Some w'"
proof (cases op)
  case (SendToMultipleUsers us payload sid)
  with sendToMultipleUsers_returns[OF assms, of "system_fcm sys" now us payload sid w]
  show ?thesis by auto
next
  case (SendDailyNotifications t sid payload)
  with sendDailyNotifications_returns[OF assms, of "system_fcm sys" now t sid payload w]
  show ?thesis by auto
next
  case (RunDailyFlow fails faults)
  have "0 < env_fcmBatchLimit \<lparr>env_now = now, env_fcm = system_fcm sys,
                       env_fcmBatchLimit = system_fcmBatchLimit sys,
                       env_topicsQueryFails = fails, env_faults = faults\<rparr>"
    using assms by simp
  from runDailyFlow_returns[OF this, of w] RunDailyFlow show ?thesis by auto
next
  case (MarkAsRead userId sid)
  then show ?thesis by (auto split: sum.splits)
qed simp_all

lemma execAll_returns:
  assumes "0 < system_fcmBatchLimit sys"
  shows "\<exists>w'. execAll sys steps w = Some w'"
proof (induction steps arbitrary: w)
  case Nil
  show ?case by simp
next
  case (Cons step rest)
  from exec_returns[OF assms, of "fst step" "snd step" w] obtain w1 where
    "exec sys (fst step) (snd step) w = Some w1" by blast
  with Cons.IH[of w1] show ?case by simp
qed

lemma exampleSend:
  "sendToUser exampleGateway exampleNow 501 ''tokA'' examplePayload (Some 30) exampleReplay
   = (\<lparr>log_userId = 501, log_dailySelectionId = 30, log_status = SENT, log_error = None,
       log_sentAt = Some exampleNow\<rparr>,
      exampleReplay\<lparr>sendCalls := 1,
        logs := [\<lparr>log_userId = 501, log_dailySelectionId = 30, log_status = SENT,
                  log_error = None, log_sentAt = Some exampleNow\<rparr>]\<rparr>)"
  by (simp add: sendToUser_def exampleGateway_def exampleReplay_def exampleCatalog_def orElse_def
      Let_def)

theorem C9_log_states_witness:
  "(\<exists>w'. execAll exampleSystem exampleSteps exampleReplay = Some w'
      \<and> (\<exists>rows. logs w' = logs exampleReplay @ rows
            \<and> (\<forall>row \<in> set rows. log_status row = SENT \<or> log_status row = FAILED)))
 \<and> logs (snd (sendToUser exampleGateway exampleNow 501 ''tokA'' examplePayload (Some 30)
                 exampleReplay))
      = logs exampleReplay @
          [\<lparr>log_userId = 501, log_dailySelectionId = 30, log_status = SENT, log_error = None,
            log_sentAt = Some exampleNow\<rparr>]
 \<and> (\<exists>totals w'. sendToMultipleUsers exampleGateway 2 exampleNow exampleRecipients
                    examplePayload 30 exampleReplay = Some (totals, w')
      \<and> (\<exists>rows. logs w' = logs exampleReplay @ rows
            \<and> (\<forall>row \<in> set rows. log_status row = SENT \<or> log_status row = FAILED)))"
proof -
  have L: "0 < system_fcmBatchLimit exampleSystem" by (simp add: exampleSystem_def)
  from execAll_returns[OF L, of exampleSteps exampleReplay] obtain w' where
    e: "execAll exampleSystem exampleSteps exampleReplay = Some w'" by blast
  from sendToMultipleUsers_returns[of 2 exampleGateway exampleNow exampleRecipients
      examplePayload 30 exampleReplay]
  obtain totals w2 where m: "sendToMultipleUsers exampleGateway 2 exampleNow exampleRecipients
                    examplePayload 30 exampleReplay = Some (totals, w2)" by auto
  note inst = C9_log_states[of exampleSystem exampleSteps exampleReplay exampleGateway exampleNow
      501 "''tokA''" examplePayload "Some 30" 2 exampleRecipients 30]
  from inst e have 1: "\<exists>w'. execAll exampleSystem exampleSteps exampleReplay = Some w'
      \<and> (\<exists>rows. logs w' = logs exampleReplay @ rows
            \<and> (\<forall>row \<in> set rows. log_status row = SENT \<or> log_status row = FAILED))"
    by blast
  from inst exampleSend have 2: "logs (snd (sendToUser exampleGateway exampleNow 501 ''tokA''
                 examplePayload (Some 30) exampleReplay))
      = logs exampleReplay @
          [\<lparr>log_userId = 501, log_dailySelectionId = 30, log_status = SENT, log_error = None,
            log_sentAt = Some exampleNow\<rparr>]"
    by simp
  from inst m have 3: "\<exists>totals w'. sendToMultipleUsers exampleGateway 2 exampleNow
                    exampleRecipients examplePayload 30 exampleReplay = Some (totals, w')
      \<and> (\<exists>rows. logs w' = logs exampleReplay @ rows
            \<and> (\<forall>row \<in> set rows. log_status row = SENT \<or> log_status row = FAILED))"
    by blast
  from 1 2 3 show ?thesis by blast
qed

text \<open>
  Claim C2, evaluated where it fails. Bob is active and subscribed to the topic, and his
  token has been flagged by \<open>markTokenInvalid\<close>. The recipient query of
  \<open>sendDailyNotifications\<close> only asks for a token that is not null, so Bob is a recipient,
  the sentinel is sent to the gateway as his token, and an attempt is logged for him.
\<close>

theorem C2_flagged_token_still_notified:
  "users (markTokenInvalid 502
            (exampleCatalog\<lparr>users := [userAda, userBob\<lparr>fcmToken := Some ''tokB''\<rparr>]\<rparr>))
     = [userAda, userBob]
 \<and> fcmToken userBob = Some ''__invalid__''
 \<and> dailyRecipients 201 (users exampleCatalog) = [userAda, userBob]
 \<and> map batchEntryOf (dailyRecipients 201 (users exampleCatalog))
     = [\<lparr>entry_userId = 501, entry_fcmToken = ''tokA''\<rparr>,
        \<lparr>entry_userId = 502, entry_fcmToken = ''__invalid__''\<rparr>]
 \<and> map log_userId (logs (snd (the (sendDailyNotifications exampleGateway 2 exampleNow 201 30
                                     examplePayload exampleCatalog)))) = [501, 502]
 \<and> multicastCalls (snd (the (sendDailyNotifications exampleGateway 2 exampleNow 201 30
                                     examplePayload exampleCatalog))) = 1"
  by (simp add: markTokenInvalid_def dailyRecipients_def batchEntryOf_def exampleCatalog_def
      userAda_def userBob_def orElse_def sendDailyNotifications_def sendToMultipleUsers_def
      totalBatches_def sendBatch_def slice_def exampleGateway_def examplePayload_def
      logEntryOf_def invalidUserIdsOf_def bulkMarkTokensInvalid_def updateMany_def
      responseErrorCode_def responseErrorMessage_def INVALID_TOKEN_CODES_def errorString_def
      Let_def)

end
